theory Spec2Isabelle
  imports Complex_Main "HOL-Library.Multiset"
begin

section \<open>JavaScript values and strings\<close>

text \<open>
  A JavaScript string is modelled as a \<^typ>\<open>string\<close> whose characters are read as the
  code points U+0000 .. U+00FF (Latin-1), which is closed under \<open>toLowerCase\<close> and
  \<open>trim\<close>. A field of a record received from the cocktail API is a string or
  \<open>null\<close>; a field that is absent reads as \<open>undefined\<close>, the value \<^term>\<open>None\<close> of a
  property read.
\<close>

datatype jsval = JNull | JStr string

type_synonym obj = "string \<rightharpoonup> jsval"

text \<open>Truthiness of the result of a property read: \<open>undefined\<close>, \<open>null\<close> and \<open>''\<close> are falsy.\<close>

fun truthy :: "jsval option \<Rightarrow> bool" where
  "truthy None = False"
| "truthy (Some JNull) = False"
| "truthy (Some (JStr s)) = (s \<noteq> [])"

text \<open>\<open>v || ''\<close>: the value itself when it is truthy, the empty string otherwise.\<close>

definition orEmpty :: "jsval option \<Rightarrow> jsval" where
  "orEmpty v = (if truthy v then the v else JStr [])"

text \<open>\<open>String.prototype.toLowerCase\<close> on Latin-1: A-Z and the capital letters U+00C0 .. U+00DE
  (but the sign U+00D7) move 32 code points up.\<close>

definition toLowerChar :: "char \<Rightarrow> char" where
  "toLowerChar c = (let n = (of_char c :: nat) in
     if (65 \<le> n \<and> n \<le> 90) \<or> (192 \<le> n \<and> n \<le> 214) \<or> (216 \<le> n \<and> n \<le> 222)
     then char_of (n + 32) else c)"

definition toLowerCase :: "string \<Rightarrow> string" where
  "toLowerCase s = map toLowerChar s"

text \<open>\<open>String.prototype.trim\<close> removes white space and line terminators at both ends; below
  U+0100 these are TAB, LF, VT, FF, CR, SPACE and NBSP.\<close>

definition isWhiteSpace :: "char \<Rightarrow> bool" where
  "isWhiteSpace c = ((of_char c :: nat) \<in> {9, 10, 11, 12, 13, 32, 160})"

definition trim :: "string \<Rightarrow> string" where
  "trim s = rev (dropWhile isWhiteSpace (rev (dropWhile isWhiteSpace s)))"

text \<open>The decimal digits of a number, as the template literal \<open>`strIngredient${i}`\<close> prints them.\<close>

function string_of_nat :: "nat \<Rightarrow> string" where
  "string_of_nat n =
     (if n < 10 then [char_of (48 + n)]
      else string_of_nat (n div 10) @ [char_of (48 + n mod 10)])"
  by pat_completeness auto
termination
  by (relation "measure (\<lambda>n. n)") auto

declare string_of_nat.simps [simp del]

section \<open>The drink normalizer\<close>

text \<open>An entry of the \<open>ingredients\<close> array: the object \<open>{ ingredient: ing, measure: mea || '' }\<close>.\<close>

record ingredient_entry =
  ingredient :: jsval
  measure :: jsval

text \<open>
  \<open>normalizeDrinkDetails\<close> works on two objects: the argument \<open>drink\<close>, which it only
  reads, and the local array \<open>ingredients\<close>, to which it pushes. Both are carried in the
  state of the loop, so that what the call leaves of \<open>drink\<close> is a result of the model.
\<close>

record norm_state =
  drink :: obj
  ingredients :: "ingredient_entry list"

text \<open>The body of the loop for the slot \<open>i\<close>.\<close>

definition slot :: "nat \<Rightarrow> norm_state \<Rightarrow> norm_state" where
  "slot i st =
     (let ing = drink st (''strIngredient'' @ string_of_nat i);
          mea = drink st (''strMeasure'' @ string_of_nat i)
      in if truthy ing
         then st\<lparr>ingredients := ingredients st @ [\<lparr>ingredient = the ing, measure = orEmpty mea\<rparr>]\<rparr>
         else st)"

text \<open>\<open>for (let i = 1; i <= 15; i++)\<close>, entered at \<open>i\<close>.\<close>

function slots_from :: "nat \<Rightarrow> norm_state \<Rightarrow> norm_state" where
  "slots_from i st = (if i \<le> 15 then slots_from (i + 1) (slot i st) else st)"
  by pat_completeness auto
termination
  by (relation "Wellfounded.measure (\<lambda>(i, st). 16 - i)") auto

declare slots_from.simps [simp del]

text \<open>A property of the returned object: a field copied from \<open>drink\<close> by the spread, or the
  array stored under \<open>ingredients\<close>.\<close>

datatype propval = FieldValue jsval | Ingredients "ingredient_entry list"

type_synonym drink_details = "string \<rightharpoonup> propval"

text \<open>\<open>{ ...drink, ingredients }\<close>: the own properties of \<open>drink\<close>, then the property
  \<open>ingredients\<close>, which replaces a property of that name.\<close>

definition spread_ingredients :: "norm_state \<Rightarrow> drink_details" where
  "spread_ingredients st =
     (map_option FieldValue \<circ> drink st)(''ingredients'' \<mapsto> Ingredients (ingredients st))"

text \<open>The call: the state the loop ends in, and the object returned.\<close>

definition normalizeDrinkDetails_run :: "obj \<Rightarrow> norm_state \<times> drink_details" where
  "normalizeDrinkDetails_run d =
     (let st = slots_from 1 \<lparr>drink = d, ingredients = []\<rparr>
      in (st, spread_ingredients st))"

definition normalizeDrinkDetails :: "obj \<Rightarrow> drink_details" where
  "normalizeDrinkDetails d = snd (normalizeDrinkDetails_run d)"

text \<open>The entry of the slot \<open>i\<close> in the words of the specification: the name as it is, the
  measure when it is a string, the empty string otherwise.\<close>

definition slot_entry :: "obj \<Rightarrow> nat \<Rightarrow> ingredient_entry" where
  "slot_entry d i =
     \<lparr>ingredient = the (d (''strIngredient'' @ string_of_nat i)),
      measure = (case d (''strMeasure'' @ string_of_nat i) of Some (JStr m) \<Rightarrow> JStr m | _ \<Rightarrow> JStr [])\<rparr>"

section \<open>The pairing tables\<close>

text \<open>
  A pairing rule is an object \<open>{ type, value }\<close>. Every object literal of the tables is an
  object of its own, and JavaScript compares objects by identity: \<open>oid\<close> numbers the
  literals in the order of the source, so that two rules are equal here exactly when
  they are the same object there. Rules of different tables can still agree in
  \<open>type\<close> and \<open>value\<close>.
\<close>

record rule =
  oid :: nat
  type' :: string
  value' :: string

record pairing_group =
  keys :: "string list"
  options :: "rule list"

definition FILLERS :: "string list" where
  "FILLERS =
    [''ice'', ''salt'', ''sugar'', ''water'', ''soda water'', ''club soda'', ''tonic water'', ''ginger ale'',
     ''lemon juice'', ''lime juice'', ''orange juice'', ''cranberry juice'', ''pineapple juice'',
     ''simple syrup'', ''syrup'', ''grenadine'', ''angostura bitters'', ''bitters'',
     ''mint'', ''basil'', ''rosemary'', ''egg white'', ''cream'', ''milk'', ''half-and-half'']"

definition PAIRING_CANDIDATES :: "pairing_group list" where
  "PAIRING_CANDIDATES =
    [\<lparr>keys = [''tequila'', ''mezcal''], options =
       [\<lparr>oid = 0, type' = ''area'', value' = ''Mexican''\<rparr>,
        \<lparr>oid = 1, type' = ''category'', value' = ''Pork''\<rparr>,
        \<lparr>oid = 2, type' = ''category'', value' = ''Seafood''\<rparr>]\<rparr>,
     \<lparr>keys = [''rum''], options =
       [\<lparr>oid = 3, type' = ''area'', value' = ''Jamaican''\<rparr>,
        \<lparr>oid = 4, type' = ''area'', value' = ''Cuban''\<rparr>,
        \<lparr>oid = 5, type' = ''category'', value' = ''Dessert''\<rparr>]\<rparr>,
     \<lparr>keys = [''gin''], options =
       [\<lparr>oid = 6, type' = ''category'', value' = ''Seafood''\<rparr>,
        \<lparr>oid = 7, type' = ''category'', value' = ''Vegetarian''\<rparr>,
        \<lparr>oid = 8, type' = ''area'', value' = ''British''\<rparr>]\<rparr>,
     \<lparr>keys = [''vodka''], options =
       [\<lparr>oid = 9, type' = ''category'', value' = ''Pasta''\<rparr>,
        \<lparr>oid = 10, type' = ''area'', value' = ''Russian''\<rparr>,
        \<lparr>oid = 11, type' = ''category'', value' = ''Chicken''\<rparr>]\<rparr>,
     \<lparr>keys = [''whiskey'', ''whisky'', ''bourbon'', ''rye'', ''scotch''], options =
       [\<lparr>oid = 12, type' = ''category'', value' = ''Beef''\<rparr>,
        \<lparr>oid = 13, type' = ''category'', value' = ''Pork''\<rparr>,
        \<lparr>oid = 14, type' = ''area'', value' = ''American''\<rparr>]\<rparr>,
     \<lparr>keys = [''brandy'', ''cognac''], options =
       [\<lparr>oid = 15, type' = ''category'', value' = ''Lamb''\<rparr>,
        \<lparr>oid = 16, type' = ''category'', value' = ''Beef''\<rparr>,
        \<lparr>oid = 17, type' = ''area'', value' = ''French''\<rparr>]\<rparr>,
     \<lparr>keys = [''campari'', ''aperol'', ''vermouth''], options =
       [\<lparr>oid = 18, type' = ''category'', value' = ''Seafood''\<rparr>,
        \<lparr>oid = 19, type' = ''category'', value' = ''Pasta''\<rparr>,
        \<lparr>oid = 20, type' = ''area'', value' = ''Italian''\<rparr>]\<rparr>,
     \<lparr>keys = [''triple sec'', ''cointreau'', ''grand marnier'',
               ''cura'' @ [CHR 0xE7] @ ''ao'', ''curacao'', ''amaretto''], options =
       [\<lparr>oid = 21, type' = ''category'', value' = ''Dessert''\<rparr>,
        \<lparr>oid = 22, type' = ''category'', value' = ''Cake''\<rparr>,
        \<lparr>oid = 23, type' = ''category'', value' = ''Pancake''\<rparr>]\<rparr>,
     \<lparr>keys = [''sotol''], options =
       [\<lparr>oid = 24, type' = ''area'', value' = ''Mexican''\<rparr>,
        \<lparr>oid = 25, type' = ''category'', value' = ''Beef''\<rparr>]\<rparr>,
     \<lparr>keys = [''cacha'' @ [CHR 0xE7] @ ''a'', ''cacacha'', ''aguardiente''], options =
       [\<lparr>oid = 26, type' = ''area'', value' = ''Brazilian''\<rparr>,
        \<lparr>oid = 27, type' = ''category'', value' = ''Beef''\<rparr>]\<rparr>,
     \<lparr>keys = [''ouzo'', ''pastis'', ''arak'', ''raki'', ''sambuca''], options =
       [\<lparr>oid = 28, type' = ''area'', value' = ''Greek''\<rparr>,
        \<lparr>oid = 29, type' = ''category'', value' = ''Seafood''\<rparr>]\<rparr>,
     \<lparr>keys = [''sake'', ''soju'', ''shochu''], options =
       [\<lparr>oid = 30, type' = ''area'', value' = ''Japanese''\<rparr>,
        \<lparr>oid = 31, type' = ''category'', value' = ''Seafood''\<rparr>]\<rparr>]"

definition DEFAULT_PAIRINGS :: "rule list" where
  "DEFAULT_PAIRINGS =
    [\<lparr>oid = 32, type' = ''area'', value' = ''Italian''\<rparr>,
     \<lparr>oid = 33, type' = ''area'', value' = ''Thai''\<rparr>,
     \<lparr>oid = 34, type' = ''area'', value' = ''Indian''\<rparr>,
     \<lparr>oid = 35, type' = ''category'', value' = ''Seafood''\<rparr>,
     \<lparr>oid = 36, type' = ''category'', value' = ''Vegetarian''\<rparr>,
     \<lparr>oid = 37, type' = ''category'', value' = ''Chicken''\<rparr>]"

section \<open>The pairing rule selector\<close>

text \<open>
  \<open>Math.random()\<close> is a parameter: the number it returns, a double that is at least 0 and
  less than 1. Such a double is \<open>m / 2 ^ e\<close> for a mantissa \<open>m\<close> below \<open>2 ^ 53\<close> and an exponent
  \<open>e\<close> of at most 1074.
\<close>

record draw =
  mantissa :: nat
  exponent :: nat

definition is_draw :: "draw \<Rightarrow> bool" where
  "is_draw r \<longleftrightarrow> mantissa r < 2 ^ 53 \<and> exponent r \<le> 1074 \<and> mantissa r < 2 ^ exponent r"

definition draw_value :: "draw \<Rightarrow> rat" where
  "draw_value r = of_nat (mantissa r) / 2 ^ exponent r"

text \<open>The number of binary digits of a number.\<close>

function bit_length :: "nat \<Rightarrow> nat" where
  "bit_length n = (if n = 0 then 0 else Suc (bit_length (n div 2)))"
  by pat_completeness auto
termination
  by (relation "Wellfounded.measure (\<lambda>n. n)") auto

declare bit_length.simps [simp del]

text \<open>\<open>p / 2 ^ s\<close> rounded to the nearest integer, a tie to the even one: the rounding of the
  double arithmetic.\<close>

definition round_half_even :: "nat \<Rightarrow> nat \<Rightarrow> nat" where
  "round_half_even p s =
     (let q = p div 2 ^ s; rest = p mod 2 ^ s
      in if 2 ^ s < 2 * rest \<or> (2 * rest = 2 ^ s \<and> odd q) then q + 1 else q)"

text \<open>
  \<open>Math.random() * arr.length\<close>: the length \<open>n\<close> of an array is a double as it is; the
  product \<open>m * n / 2 ^ e\<close> is a double when \<open>m * n\<close> has at most 53 digits, and is rounded
  to 53 digits otherwise, the \<open>s\<close> digits beyond them rounded away. The result is the
  numerator of a fraction with the denominator \<open>2 ^ e\<close>.
\<close>

definition times_length :: "draw \<Rightarrow> nat \<Rightarrow> nat" where
  "times_length r n =
     (let p = mantissa r * n; s = bit_length p - 53
      in round_half_even p s * 2 ^ s)"

text \<open>\<open>Math.floor(Math.random() * arr.length)\<close>\<close>

definition random_index :: "draw \<Rightarrow> nat \<Rightarrow> nat" where
  "random_index r n = times_length r n div 2 ^ exponent r"

text \<open>\<open>arr[Math.floor(Math.random() * arr.length)]\<close> is the element at that index, and
  \<open>undefined\<close> (\<^term>\<open>None\<close>) for an index outside of the array.\<close>

definition pickOne :: "draw \<Rightarrow> 'a list \<Rightarrow> 'a option" where
  "pickOne r arr =
     (let i = random_index r (length arr)
      in if i < length arr then Some (arr ! i) else None)"

text \<open>\<open>(i.ingredient || '')\<close>, a string.\<close>

definition ingredient_name :: "ingredient_entry \<Rightarrow> string" where
  "ingredient_name i = (case orEmpty (Some (ingredient i)) of JStr s \<Rightarrow> s | JNull \<Rightarrow> [])"

definition extractPairingKeys :: "ingredient_entry list \<Rightarrow> string list" where
  "extractPairingKeys ings =
     filter (\<lambda>x. x \<noteq> [] \<and> x \<notin> set FILLERS)
       (map (\<lambda>i. trim (toLowerCase (ingredient_name i))) ings)"

text \<open>\<open>group.keys.some(k => keys.includes(k))\<close>\<close>

definition group_matches :: "string list \<Rightarrow> pairing_group \<Rightarrow> bool" where
  "group_matches ks g = list_ex (\<lambda>k. k \<in> set ks) (keys g)"

text \<open>The loop over the groups, which returns from the function at the first group that
  matches, and the statement after the loop.\<close>

fun pickPairingRule_scan :: "draw \<Rightarrow> string list \<Rightarrow> pairing_group list \<Rightarrow> rule option" where
  "pickPairingRule_scan r ks [] = pickOne r DEFAULT_PAIRINGS"
| "pickPairingRule_scan r ks (g # gs) =
     (if group_matches ks g then pickOne r (options g) else pickPairingRule_scan r ks gs)"

definition pickPairingRule :: "draw \<Rightarrow> ingredient_entry list \<Rightarrow> rule option" where
  "pickPairingRule r ings = pickPairingRule_scan r (extractPairingKeys ings) PAIRING_CANDIDATES"

section \<open>The meal fetcher\<close>

text \<open>
  The meal API is outside of the program. A request carries the parameter \<open>a\<close> (an area)
  or \<open>c\<close> (a category); the promise \<open>axios.get\<close> returns is rejected (no answer, or a
  status that is an error), or fulfilled with data whose \<open>meals\<close> is \<open>null\<close> or an array.
  What the API answers can depend on what it was asked before: it is a state machine
  \<open>api\<close>, which the fetcher steps once for each request. The fetcher does not look into
  a meal: \<open>'m\<close>.
\<close>

datatype query = ByArea string | ByCategory string

datatype 'm response = Rejected | Meals "'m list option"

type_synonym ('s, 'm) api = "'s \<Rightarrow> query \<Rightarrow> 'm response \<times> 's"

text \<open>What the call does to the world: the requests it sends, and the lines it writes with
  \<open>console.error\<close>, in their order.\<close>

datatype event = Request query | ConsoleError

record 's world =
  upstream :: 's
  events :: "event list"

datatype error = AxiosError | TypeError

text \<open>
  How a block of statements ends: with a \<open>return\<close> of the function, by falling through to
  the statement after it, or with an exception. A statement takes the world to such an
  end and a world.
\<close>

datatype 'a outcome = Returned 'a | Fell_through | Thrown error

type_synonym ('s, 'a) stmt = "'s world \<Rightarrow> 'a outcome \<times> 's world"

definition seq :: "('s, 'a) stmt \<Rightarrow> ('s, 'a) stmt \<Rightarrow> ('s, 'a) stmt" where
  "seq s1 s2 w = (case s1 w of (Fell_through, w') \<Rightarrow> s2 w' | r \<Rightarrow> r)"

definition try_catch :: "('s, 'a) stmt \<Rightarrow> (error \<Rightarrow> ('s, 'a) stmt) \<Rightarrow> ('s, 'a) stmt" where
  "try_catch body handler w = (case body w of (Thrown e, w') \<Rightarrow> handler e w' | r \<Rightarrow> r)"

fun for_of :: "'b list \<Rightarrow> ('b \<Rightarrow> ('s, 'a) stmt) \<Rightarrow> ('s, 'a) stmt" where
  "for_of [] body w = (Fell_through, w)"
| "for_of (x # xs) body w = (case body x w of (Fell_through, w') \<Rightarrow> for_of xs body w' | r \<Rightarrow> r)"

definition return :: "'a \<Rightarrow> ('s, 'a) stmt" where
  "return v w = (Returned v, w)"

definition skip :: "('s, 'a) stmt" where
  "skip w = (Fell_through, w)"

definition console_error :: "('s, 'a) stmt" where
  "console_error w = (Fell_through, w\<lparr>events := events w @ [ConsoleError]\<rparr>)"

text \<open>
  The three statements every lookup consists of:
  \<^verbatim>\<open>const { data } = await axios.get(URL, { params });\<close>
  \<^verbatim>\<open>const meals = (data.meals || []);\<close>
  \<^verbatim>\<open>if (meals.length) return meals.slice(0, 6);\<close>
\<close>

definition lookup :: "('s, 'm) api \<Rightarrow> query \<Rightarrow> ('s, 'm list) stmt" where
  "lookup api q w =
     (case api (upstream w) q of (resp, s') \<Rightarrow>
        let w' = \<lparr>upstream = s', events = events w @ [Request q]\<rparr>
        in case resp of
             Rejected \<Rightarrow> (Thrown AxiosError, w')
           | Meals m \<Rightarrow>
               let meals = (case m of None \<Rightarrow> [] | Some ms \<Rightarrow> ms)
               in if length meals \<noteq> 0 then (Returned (take 6 meals), w') else (Fell_through, w'))"

text \<open>The body of the first \<open>try\<close>. The argument \<open>rule\<close> is an object or, as \<^term>\<open>None\<close>,
  \<open>undefined\<close>, of which \<open>rule.type\<close> cannot be read.\<close>

definition primary :: "('s, 'm) api \<Rightarrow> rule option \<Rightarrow> ('s, 'm list) stmt" where
  "primary api rule w =
     (case rule of
        None \<Rightarrow> (Thrown TypeError, w)
      | Some ru \<Rightarrow>
          if type' ru = ''area'' then lookup api (ByArea (value' ru)) w
          else if type' ru = ''category'' then lookup api (ByCategory (value' ru)) w
          else (Fell_through, w))"

text \<open>The body of the \<open>try\<close> in the loop over the fallbacks.\<close>

definition fallback_query :: "rule \<Rightarrow> query" where
  "fallback_query fb = (if type' fb = ''area'' then ByArea (value' fb) else ByCategory (value' fb))"

definition fallback :: "('s, 'm) api \<Rightarrow> rule \<Rightarrow> ('s, 'm list) stmt" where
  "fallback api fb = lookup api (fallback_query fb)"

text \<open>
  \<open>Array.prototype.sort\<close> belongs to the engine. On an array, it is a procedure that
  calls the comparator on two elements, looks at the sign of the number returned and
  goes on, until it stores an array: a tree of comparisons, which the fetcher takes
  as the parameter \<open>engine\<close>. The comparator \<open>() => Math.random() - 0.5\<close> draws a number
  for every call; \<open>rnd n\<close> is the number of the draw \<open>n\<close>. The difference of two doubles has
  the sign of the exact difference.
\<close>

datatype 'a cmptree =
  Sorted "'a list"
| Compare 'a 'a "'a cmptree" "'a cmptree" "'a cmptree"

fun sort_random :: "(nat \<Rightarrow> rat) \<Rightarrow> nat \<Rightarrow> 'a cmptree \<Rightarrow> 'a list" where
  "sort_random rnd n (Sorted xs) = xs"
| "sort_random rnd n (Compare a b neg zero pos) =
     (let v = rnd n - 1 / 2
      in if v < 0 then sort_random rnd (Suc n) neg
         else if v = 0 then sort_random rnd (Suc n) zero
         else sort_random rnd (Suc n) pos)"

text \<open>The statements after the first \<open>try\<close>: the shuffle, the loop and \<open>return []\<close>.\<close>

definition fallback_cascade ::
  "(rule list \<Rightarrow> rule cmptree) \<Rightarrow> (nat \<Rightarrow> rat) \<Rightarrow> ('s, 'm) api \<Rightarrow> ('s, 'm list) stmt" where
  "fallback_cascade engine rnd api =
     (let shuffled = sort_random rnd 0 (engine DEFAULT_PAIRINGS)
      in seq (for_of shuffled (\<lambda>fb. try_catch (fallback api fb) (\<lambda>e. skip)))
             (return []))"

definition fetchMealsByRule ::
  "(rule list \<Rightarrow> rule cmptree) \<Rightarrow> (nat \<Rightarrow> rat) \<Rightarrow> ('s, 'm) api \<Rightarrow> rule option
     \<Rightarrow> ('s, 'm list) stmt" where
  "fetchMealsByRule engine rnd api rule =
     seq (try_catch (primary api rule) (\<lambda>e. console_error))
         (fallback_cascade engine rnd api)"

subsection \<open>What the engine's sort is required to do\<close>

text \<open>
  The language standard leaves the order open that \<open>sort\<close> produces with a comparator
  that is not consistent, and fixes it for one that is. The arrays a tree can store,
  and the array it stores when the comparator is \<open>c\<close>:
\<close>

fun results :: "'a cmptree \<Rightarrow> 'a list set" where
  "results (Sorted xs) = {xs}"
| "results (Compare a b neg zero pos) = results neg \<union> results zero \<union> results pos"

fun sort_with :: "('a \<Rightarrow> 'a \<Rightarrow> int) \<Rightarrow> 'a cmptree \<Rightarrow> 'a list" where
  "sort_with c (Sorted xs) = xs"
| "sort_with c (Compare a b neg zero pos) =
     (if c a b < 0 then sort_with c neg
      else if c a b = 0 then sort_with c zero
      else sort_with c pos)"

text \<open>
  The requirement on the tree \<open>t\<close> of the array \<open>xs\<close>: every array it can store is a
  rearrangement of \<open>xs\<close>, and with the comparator \<open>(a, b) => f(a) - f(b)\<close> of a ranking \<open>f\<close>
  that tells the elements apart, the array it stores is in the order of the ranks.
\<close>

definition engine_sorts :: "'a cmptree \<Rightarrow> 'a list \<Rightarrow> bool" where
  "engine_sorts t xs \<longleftrightarrow>
     (\<forall>ys \<in> results t. mset ys = mset xs)
   \<and> (\<forall>f :: 'a \<Rightarrow> nat. inj_on f (set xs) \<longrightarrow>
         sorted (map f (sort_with (\<lambda>a b. int (f a) - int (f b)) t)))"

text \<open>An engine that meets the requirement: insertion sort, each element put before the
  first element of the sorted part that it is not greater than.\<close>

fun insert_tree :: "'a \<Rightarrow> 'a list \<Rightarrow> 'a list \<Rightarrow> 'a cmptree" where
  "insert_tree x front [] = Sorted (front @ [x])"
| "insert_tree x front (y # ys) =
     Compare x y (Sorted (front @ x # y # ys)) (Sorted (front @ x # y # ys))
       (insert_tree x (front @ [y]) ys)"

fun then_sort :: "'a cmptree \<Rightarrow> ('a list \<Rightarrow> 'a cmptree) \<Rightarrow> 'a cmptree" where
  "then_sort (Sorted xs) k = k xs"
| "then_sort (Compare a b neg zero pos) k =
     Compare a b (then_sort neg k) (then_sort zero k) (then_sort pos k)"

definition insertion_engine :: "'a list \<Rightarrow> 'a cmptree" where
  "insertion_engine xs = foldl (\<lambda>t x. then_sort t (insert_tree x [])) (Sorted []) xs"

text \<open>The answers of the API to the queries \<open>qs\<close>, sent one after the other from the state \<open>s\<close>.\<close>

fun responses :: "('s, 'm) api \<Rightarrow> query list \<Rightarrow> 's \<Rightarrow> 'm response list" where
  "responses api [] s = []"
| "responses api (q # qs) s = (case api s q of (r, s') \<Rightarrow> r # responses api qs s')"

text \<open>An answer with at least one meal, and the meals of an answer.\<close>

fun has_meals :: "'m response \<Rightarrow> bool" where
  "has_meals (Meals (Some ms)) = (ms \<noteq> [])"
| "has_meals _ = False"

fun meals_of :: "'m response \<Rightarrow> 'm list" where
  "meals_of (Meals (Some ms)) = ms"
| "meals_of _ = []"

text \<open>The state of the API after the queries \<open>qs\<close>, sent one after the other from the state \<open>s\<close>.\<close>

fun after_requests :: "('s, 'm) api \<Rightarrow> query list \<Rightarrow> 's \<Rightarrow> 's" where
  "after_requests api [] s = s"
| "after_requests api (q # qs) s = after_requests api qs (snd (api s q))"

text \<open>
  Draws that make the random comparator answer as the comparator \<open>c\<close> does, along the
  comparisons the tree makes with \<open>c\<close>: one quarter, one half or three quarters; the
  random source that replays a list of draws, and draws 0 after them; and the place of
  an element in a list.
\<close>

fun draws_for :: "('a \<Rightarrow> 'a \<Rightarrow> int) \<Rightarrow> 'a cmptree \<Rightarrow> draw list" where
  "draws_for c (Sorted xs) = []"
| "draws_for c (Compare a b neg zero pos) =
     (if c a b < 0 then \<lparr>mantissa = 1, exponent = 2\<rparr> # draws_for c neg
      else if c a b = 0 then \<lparr>mantissa = 1, exponent = 1\<rparr> # draws_for c zero
      else \<lparr>mantissa = 3, exponent = 2\<rparr> # draws_for c pos)"

definition replay :: "draw list \<Rightarrow> nat \<Rightarrow> draw" where
  "replay ds n = (if n < length ds then ds ! n else \<lparr>mantissa = 0, exponent = 0\<rparr>)"

definition place :: "'a list \<Rightarrow> 'a \<Rightarrow> nat" where
  "place p a = length (takeWhile (\<lambda>b. b \<noteq> a) p)"

section \<open>The search form\<close>

text \<open>
  The body of a \<open>POST /search\<close> request, parsed by \<open>express.urlencoded({ extended: true })\<close>:
  an object whose fields are strings, and arrays or objects where the request repeats
  a field (\<open>name=a&name=b\<close>) or writes it with brackets (\<open>name[x]=a\<close>). The handler asks the
  cocktail API at most once, for the drinks of a name or of an ingredient; the promise
  is rejected, or fulfilled with data whose \<open>drinks\<close> is \<open>null\<close> or an array. The handler
  does not look into a drink: \<open>'d\<close>.
\<close>

datatype formval =
  Text string
| ArrayValue "formval list"
| ObjectValue "(string \<times> formval) list"

type_synonym form = "string \<rightharpoonup> formval"

datatype cocktail_query = SearchByName string | FilterByIngredient string

datatype 'd cocktail_response = SearchRejected | Drinks "'d list option"

text \<open>What the handler answers: a redirect to a path, the page \<open>results\<close> with the drinks and
  a heading, or the page \<open>error\<close> with a message.\<close>

datatype 'd reply = Redirect string | RenderResults "'d list" string | RenderError string

text \<open>
  The condition \<open>x && x.trim()\<close>: \<open>undefined\<close> and the empty string are falsy, and so is a
  string that \<open>trim\<close> leaves empty; an array or an object is truthy and has no method
  \<open>trim\<close>, so that the call raises a \<open>TypeError\<close>.
\<close>

fun nonblank :: "formval option \<Rightarrow> error + bool" where
  "nonblank None = Inr False"
| "nonblank (Some (Text s)) = Inr (s \<noteq> [] \<and> trim s \<noteq> [])"
| "nonblank (Some (ArrayValue vs)) = Inl TypeError"
| "nonblank (Some (ObjectValue fs)) = Inl TypeError"

text \<open>\<open>x.trim()\<close> where the condition has held: \<open>x\<close> is a string.\<close>

fun trimmed :: "formval option \<Rightarrow> string" where
  "trimmed (Some (Text s)) = trim s"
| "trimmed _ = []"

text \<open>The request \<open>axios.get\<close> sends, and the statement after it: an exception when the promise
  is rejected, the drinks (\<open>resp.data.drinks || []\<close>) otherwise.\<close>

definition ask :: "(cocktail_query \<Rightarrow> 'd cocktail_response) \<Rightarrow> cocktail_query \<Rightarrow> error + 'd list" where
  "ask api q =
     (case api q of
        SearchRejected \<Rightarrow> Inl AxiosError
      | Drinks ds \<Rightarrow> Inr (case ds of None \<Rightarrow> [] | Some l \<Rightarrow> l))"

text \<open>The body of the \<open>try\<close>: the requests it sends, and the answer it gives or the exception
  it ends with.\<close>

definition post_search_try ::
  "(cocktail_query \<Rightarrow> 'd cocktail_response) \<Rightarrow> form
     \<Rightarrow> cocktail_query list \<times> (error + 'd reply)" where
  "post_search_try api body =
     (let name = body ''name''; ingredient = body ''ingredient''
      in case nonblank name of
           Inl e \<Rightarrow> ([], Inl e)
         | Inr True \<Rightarrow>
             ([SearchByName (trimmed name)],
              case ask api (SearchByName (trimmed name)) of
                Inl e \<Rightarrow> Inl e
              | Inr data \<Rightarrow> Inr (RenderResults data
                  (''Results for name: '' @ [CHR 0x22] @ trimmed name @ [CHR 0x22])))
         | Inr False \<Rightarrow>
             (case nonblank ingredient of
                Inl e \<Rightarrow> ([], Inl e)
              | Inr True \<Rightarrow>
                  ([FilterByIngredient (trimmed ingredient)],
                   case ask api (FilterByIngredient (trimmed ingredient)) of
                     Inl e \<Rightarrow> Inl e
                   | Inr data \<Rightarrow> Inr (RenderResults data
                       (''Results with ingredient: '' @ [CHR 0x22] @ trimmed ingredient
                          @ [CHR 0x22])))
              | Inr False \<Rightarrow> ([], Inr (Redirect ''/''))))"

text \<open>\<open>const { name, ingredient } = req.body\<close>, and the \<open>try\<close> with its \<open>catch\<close>. The result is
  the list of the requests sent to the cocktail API, and the answer to the client.\<close>

definition post_search ::
  "(cocktail_query \<Rightarrow> 'd cocktail_response) \<Rightarrow> form \<Rightarrow> cocktail_query list \<times> 'd reply" where
  "post_search api body =
     (case post_search_try api body of
        (sent, Inl e) \<Rightarrow> (sent, RenderError ''Search failed. Please try different terms.'')
      | (sent, Inr answer) \<Rightarrow> (sent, answer))"

section \<open>Examples\<close>

text \<open>The ingredients of the two scenarios of the specification.\<close>

definition margarita :: "ingredient_entry list" where
  "margarita =
    [\<lparr>ingredient = JStr ''Tequila'', measure = JStr ''1 1/2 oz ''\<rparr>,
     \<lparr>ingredient = JStr ''Triple sec'', measure = JStr ''1/2 oz ''\<rparr>,
     \<lparr>ingredient = JStr ''Lime juice'', measure = JStr ''1 oz ''\<rparr>]"

definition iced_soda :: "ingredient_entry list" where
  "iced_soda =
    [\<lparr>ingredient = JStr ''Ice'', measure = JStr []\<rparr>,
     \<lparr>ingredient = JStr ''Soda water'', measure = JStr []\<rparr>]"

text \<open>A record with three named slots, and names that are empty, \<open>null\<close> or absent.\<close>

definition d3 :: obj where
  "d3 = [''strDrink'' \<mapsto> JStr ''Margarita'',
         ''strIngredient1'' \<mapsto> JStr ''Tequila'', ''strMeasure1'' \<mapsto> JStr ''1 1/2 oz '',
         ''strIngredient2'' \<mapsto> JStr [], ''strMeasure2'' \<mapsto> JStr ''1 dash'',
         ''strIngredient3'' \<mapsto> JStr ''Triple sec'', ''strMeasure3'' \<mapsto> JNull,
         ''strIngredient4'' \<mapsto> JNull, ''strMeasure4'' \<mapsto> JStr ''2 oz'',
         ''strIngredient12'' \<mapsto> JStr ''Lime juice'',
         ''strMeasure13'' \<mapsto> JStr ''1 oz'',
         ''strIngredient16'' \<mapsto> JStr ''Salt'']"

text \<open>Three meal APIs without a state: one that knows ten meals for every query, one that
  rejects every request, and one that knows meals of the category \<open>Chicken\<close> only.\<close>

definition ten_meals :: "(unit, nat) api" where
  "ten_meals s q = (Meals (Some [1, 2, 3, 4, 5, 6, 7, 8, 9, 10]), s)"

definition unreachable :: "(unit, nat) api" where
  "unreachable s q = (Rejected, s)"

definition chicken_only :: "(unit, nat) api" where
  "chicken_only s q = (if q = ByCategory ''Chicken'' then Meals (Some [1, 2]) else Meals None, s)"

text \<open>A random source that draws 0 every time, and the rule of the area \<open>Mexican\<close>.\<close>

definition always_zero :: "nat \<Rightarrow> rat" where
  "always_zero n = 0"

definition mexican :: rule where
  "mexican = \<lparr>oid = 0, type' = ''area'', value' = ''Mexican''\<rparr>"




text \<open>Draws: 0, one half, and the doubles next below one third, five sixths and one, which
  JavaScript prints as \<open>0.3333333333333333\<close>, \<open>0.8333333333333333\<close> and
  \<open>0.9999999999999999\<close>.\<close>

definition zero_draw :: draw where
  "zero_draw = \<lparr>mantissa = 0, exponent = 0\<rparr>"

definition half_draw :: draw where
  "half_draw = \<lparr>mantissa = 1, exponent = 1\<rparr>"

definition below_third :: draw where
  "below_third = \<lparr>mantissa = 6004799503160661, exponent = 54\<rparr>"

definition below_five_sixths :: draw where
  "below_five_sixths = \<lparr>mantissa = 3752999689475413, exponent = 52\<rparr>"

definition below_one :: draw where
  "below_one = \<lparr>mantissa = 9007199254740991, exponent = 53\<rparr>"

text \<open>A drink of gin and tonic water.\<close>

definition gin_tonic :: "ingredient_entry list" where
  "gin_tonic =
    [\<lparr>ingredient = JStr ''Gin'', measure = JStr ''2 oz ''\<rparr>,
     \<lparr>ingredient = JStr ''Tonic water'', measure = JStr ''5 oz ''\<rparr>]"

section \<open>Properties of the strings\<close>

lemma of_char_toLowerChar:
  "(of_char (toLowerChar c) :: nat) =
     (let n = of_char c in
      if (65 \<le> n \<and> n \<le> 90) \<or> (192 \<le> n \<and> n \<le> 214) \<or> (216 \<le> n \<and> n \<le> 222)
      then n + 32 else n)"
  by (auto simp: toLowerChar_def Let_def of_char_of)

lemma toLowerChar_idem: "toLowerChar (toLowerChar c) = toLowerChar c"
proof -
  have "(of_char (toLowerChar (toLowerChar c)) :: nat) = of_char (toLowerChar c)"
    by (auto simp: of_char_toLowerChar Let_def)
  then show ?thesis by simp
qed

lemma isWhiteSpace_toLowerChar: "isWhiteSpace (toLowerChar c) = isWhiteSpace c"
  by (auto simp: isWhiteSpace_def of_char_toLowerChar Let_def)

lemma toLowerCase_trim: "toLowerCase (trim s) = trim (toLowerCase s)"
  by (simp add: toLowerCase_def trim_def rev_map dropWhile_map comp_def isWhiteSpace_toLowerChar)

lemma toLowerCase_idem: "toLowerCase (toLowerCase s) = toLowerCase s"
  by (simp add: toLowerCase_def toLowerChar_idem)

lemma trim_eq_Nil_iff: "trim s = [] \<longleftrightarrow> (\<forall>c \<in> set s. isWhiteSpace c)"
proof
  assume "trim s = []"
  then have "dropWhile isWhiteSpace (rev (dropWhile isWhiteSpace s)) = []"
    by (simp add: trim_def)
  then have all: "\<forall>c \<in> set (dropWhile isWhiteSpace s). isWhiteSpace c"
    by (simp add: dropWhile_eq_Nil_conv)
  have "dropWhile isWhiteSpace s = []"
  proof (cases "dropWhile isWhiteSpace s")
    case Nil
    then show ?thesis .
  next
    case (Cons c cs)
    then have "\<not> isWhiteSpace c" by (metis hd_dropWhile list.sel(1) list.distinct(1))
    with all Cons show ?thesis by simp
  qed
  then show "\<forall>c \<in> set s. isWhiteSpace c"
    by (simp add: dropWhile_eq_Nil_conv)
next
  assume "\<forall>c \<in> set s. isWhiteSpace c"
  then show "trim s = []" by (auto simp: trim_def dest: set_dropWhileD)
qed

section \<open>Properties of the random numbers\<close>

text \<open>The product of a draw and a length, rounded as the double arithmetic rounds it, stays
  below the length: the index is within the array.\<close>

lemma bit_length_bounds: "0 < n \<Longrightarrow> 2 ^ (bit_length n - 1) \<le> n \<and> n < 2 ^ bit_length n"
proof (induction n rule: bit_length.induct)
  case (1 n)
  show ?case
  proof (cases "n div 2 = 0")
    case True
    with 1(2) have n: "n = 1" by (simp add: div_eq_0_iff) 
    have "bit_length (Suc 0) = 1"
      by (simp add: bit_length.simps [of "Suc 0"] bit_length.simps [of 0])
    with n show ?thesis by simp
  next
    case False
    with 1 have IH: "2 ^ (bit_length (n div 2) - 1) \<le> n div 2" "n div 2 < 2 ^ bit_length (n div 2)"
      by simp_all
    have pos: "0 < bit_length (n div 2)"
      using False by (simp add: bit_length.simps [of "n div 2"])
    have bl: "bit_length n = Suc (bit_length (n div 2))"
      using 1(2) by (simp add: bit_length.simps [of n])
    have "2 * 2 ^ (bit_length (n div 2) - 1) \<le> 2 * (n div 2)" using IH(1) by simp
    also have "\<dots> \<le> n" by simp
    finally have lo: "2 ^ bit_length (n div 2) \<le> n"
      using pos by (cases "bit_length (n div 2)") simp_all
    have "n < 2 * (n div 2) + 2" by presburger
    also have "\<dots> \<le> 2 * 2 ^ bit_length (n div 2)" using IH(2) by simp
    finally have hi: "n < 2 ^ Suc (bit_length (n div 2))" by simp
    from lo hi bl show ?thesis by simp
  qed
qed

lemma round_half_even_near:
  "2 * (round_half_even p s * 2 ^ s) \<le> 2 * p + 2 ^ s
   \<and> 2 * p \<le> 2 * (round_half_even p s * 2 ^ s) + 2 ^ s"
proof -
  define q rest where "q = p div 2 ^ s" and "rest = p mod 2 ^ s"
  have p: "p = q * 2 ^ s + rest" unfolding q_def rest_def by (rule div_mult_mod_eq [symmetric])
  have r: "rest < 2 ^ s" by (simp add: rest_def)
  show ?thesis
  proof (cases "2 ^ s < 2 * rest \<or> (2 * rest = 2 ^ s \<and> odd q)")
    case True
    then have "round_half_even p s = q + 1"
      by (simp add: round_half_even_def Let_def q_def rest_def)
    moreover from True have "2 ^ s \<le> 2 * rest" by auto
    ultimately show ?thesis using r by (simp add: p algebra_simps)
  next
    case False
    then have "round_half_even p s = q"
      by (simp add: round_half_even_def Let_def q_def rest_def)
    moreover from False have "2 * rest \<le> 2 ^ s" by auto
    ultimately show ?thesis by (simp add: p algebra_simps)
  qed
qed


lemma bit_length_eq:
  assumes "2 ^ k \<le> n" and "n < 2 ^ Suc k"
  shows "bit_length n = Suc k"
proof -
  have pos: "0 < n" using assms(1) by (rule less_le_trans [rotated]) simp
  from bit_length_bounds [OF pos]
  have lo: "2 ^ (bit_length n - 1) \<le> n" and hi: "n < 2 ^ bit_length n" by simp_all
  have "(2::nat) ^ k < 2 ^ bit_length n" using assms(1) hi by linarith
  then have a: "k < bit_length n" by simp
  have "(2::nat) ^ (bit_length n - 1) < 2 ^ Suc k" using assms(2) lo by linarith
  then have b: "bit_length n - 1 < Suc k" by (simp only: power_strict_increasing_iff)
  from a b show ?thesis by linarith
qed

lemma bit_length_small: "n < 2 ^ 53 \<Longrightarrow> bit_length n - 53 = 0"
proof (cases "n = 0")
  case True
  then show ?thesis by (simp add: bit_length.simps [of 0])
next
  case False
  assume "n < 2 ^ 53"
  with bit_length_bounds [of n] False have "(2::nat) ^ (bit_length n - 1) < 2 ^ 53" by simp
  then have "bit_length n - 1 < 53" by (simp only: power_strict_increasing_iff) 
  then show ?thesis by simp
qed

lemma random_index_less:
  assumes "is_draw r" and "0 < n"
  shows "random_index r n < n"
proof -
  define m e where "m = mantissa r" and "e = exponent r"
  define p where "p = m * n"
  define s where "s = bit_length p - 53"
  have m53: "m < 2 ^ 53" and me: "m < 2 ^ e"
    using assms(1) by (simp_all add: is_draw_def m_def e_def)
  have near: "2 * (round_half_even p s * 2 ^ s) \<le> 2 * p + 2 ^ s"
    using round_half_even_near [of p s] by simp
  have digits: "2 ^ s < 2 * n"
  proof (cases "s = 0")
    case True
    with assms(2) show ?thesis by simp
  next
    case False
    then have bl: "bit_length p - 1 = s + 52" by (simp add: s_def)
    have "0 < p"
    proof (rule ccontr)
      assume "\<not> 0 < p"
      then have "bit_length p = 0" by (simp add: bit_length.simps [of 0])
      with False show False by (simp add: s_def)
    qed
    from bit_length_bounds [OF this] bl have "2 ^ (s + 52) \<le> p" by simp
    also have "p < 2 ^ 53 * n"
      unfolding p_def using m53 assms(2) by (rule mult_strict_right_mono)
    finally have "(2::nat) ^ 52 * 2 ^ s < 2 ^ 52 * (2 * n)"
      by (simp add: power_add mult.commute)
    then show ?thesis by (simp only: mult_less_cancel1) 
  qed
  have "Suc m \<le> 2 ^ e" using me by simp
  then have "Suc m * n \<le> 2 ^ e * n" by (rule mult_le_mono1)
  then have room: "p + n \<le> n * 2 ^ e" by (simp add: p_def mult.commute)
  have "2 * (round_half_even p s * 2 ^ s) < 2 * (n * 2 ^ e)"
    using near digits room by linarith
  then have "round_half_even p s * 2 ^ s < n * 2 ^ e" by simp
  then have "round_half_even p s * 2 ^ s div 2 ^ e < n"
    by (rule less_mult_imp_div_less)
  then show ?thesis
    by (simp add: random_index_def times_length_def Let_def m_def e_def p_def s_def)
qed

lemma random_index_exact:
  assumes "mantissa r * n < 2 ^ 53"
  shows "random_index r n = mantissa r * n div 2 ^ exponent r"
  using bit_length_small [OF assms]
  by (simp add: random_index_def times_length_def Let_def round_half_even_def)

lemma pickOne_in_range:
  assumes "is_draw r" and "arr \<noteq> []"
  shows "\<exists>x. pickOne r arr = Some x \<and> x \<in> set arr"
proof -
  have "random_index r (length arr) < length arr"
    using assms by (simp add: random_index_less)
  then show ?thesis by (simp add: pickOne_def Let_def)
qed

lemma round_half_even_digits:
  assumes "2 ^ (s + 52) \<le> p" and "p < 2 ^ (s + 53)"
  shows "2 ^ 52 \<le> round_half_even p s \<and> round_half_even p s \<le> 2 ^ 53"
proof -
  have "2 ^ 52 * 2 ^ s \<le> p" using assms(1) by (simp add: power_add mult.commute)
  then have lo: "2 ^ 52 \<le> p div 2 ^ s" by (simp add: less_eq_div_iff_mult_less_eq)
  have "p < 2 ^ 53 * 2 ^ s" using assms(2) by (simp add: power_add mult.commute)
  then have hi: "p div 2 ^ s < 2 ^ 53" by (simp add: less_mult_imp_div_less)
  from lo hi show ?thesis by (auto simp: round_half_even_def Let_def)
qed

lemma random_index_below_third: "random_index below_third 3 = 1"
proof -
  have "bit_length 18014398509481983 = Suc 53" by (rule bit_length_eq) simp_all
  then show ?thesis
    by (simp add: below_third_def random_index_def times_length_def round_half_even_def Let_def)
qed

lemma random_index_below_five_sixths: "random_index below_five_sixths 6 = 5"
proof -
  have "bit_length 22517998136852478 = Suc 54" by (rule bit_length_eq) simp_all
  then show ?thesis
    by (simp add: below_five_sixths_def random_index_def times_length_def round_half_even_def
        Let_def)
qed

lemma random_index_below_one: "random_index below_one 6 = 5"
proof -
  have "bit_length 54043195528445946 = Suc 55" by (rule bit_length_eq) simp_all
  then show ?thesis
    by (simp add: below_one_def random_index_def times_length_def round_half_even_def Let_def)
qed

lemma is_draw_examples:
  "is_draw zero_draw" "is_draw half_draw" "is_draw below_third" "is_draw below_five_sixths"
  "is_draw below_one"
  by (simp_all add: is_draw_def zero_draw_def half_draw_def below_third_def
      below_five_sixths_def below_one_def)

section \<open>Properties of the selector\<close>

lemma options_nonempty: "g \<in> set PAIRING_CANDIDATES \<Longrightarrow> options g \<noteq> []"
  by (auto simp: PAIRING_CANDIDATES_def)

lemma options_not_default:
  "g \<in> set PAIRING_CANDIDATES \<Longrightarrow> x \<in> set (options g) \<Longrightarrow> x \<notin> set DEFAULT_PAIRINGS"
  by (auto simp: PAIRING_CANDIDATES_def DEFAULT_PAIRINGS_def)

lemma default_nonempty: "DEFAULT_PAIRINGS \<noteq> []"
  by (simp add: DEFAULT_PAIRINGS_def)

lemma keys_lower: "g \<in> set PAIRING_CANDIDATES \<Longrightarrow> k \<in> set (keys g) \<Longrightarrow> toLowerCase k = k"
  by (auto simp: PAIRING_CANDIDATES_def) code_simp+

lemma group_matches_iff: "group_matches ks g \<longleftrightarrow> (\<exists>k \<in> set (keys g). k \<in> set ks)"
  by (simp add: group_matches_def list_ex_iff)

lemma set_extractPairingKeys:
  "set (extractPairingKeys ings) =
     {k. \<exists>i \<in> set ings. k = trim (toLowerCase (ingredient_name i)) \<and> k \<noteq> [] \<and> k \<notin> set FILLERS}"
  by (auto simp: extractPairingKeys_def)

lemma extract_lower: "k \<in> set (extractPairingKeys ings) \<Longrightarrow> toLowerCase k = k"
  by (auto simp: extractPairingKeys_def toLowerCase_trim toLowerCase_idem)

lemma extract_cong:
  assumes "map (\<lambda>i. toLowerCase (ingredient_name i)) ings =
           map (\<lambda>i. toLowerCase (ingredient_name i)) ings'"
  shows "extractPairingKeys ings = extractPairingKeys ings'"
proof -
  have "map (\<lambda>i. trim (toLowerCase (ingredient_name i))) ings =
        map trim (map (\<lambda>i. toLowerCase (ingredient_name i)) ings)" by simp
  also have "\<dots> = map trim (map (\<lambda>i. toLowerCase (ingredient_name i)) ings')"
    using assms by simp
  also have "\<dots> = map (\<lambda>i. trim (toLowerCase (ingredient_name i))) ings'" by simp
  finally show ?thesis by (simp add: extractPairingKeys_def)
qed

lemma scan_no_match:
  "\<forall>g \<in> set gs. \<not> group_matches ks g \<Longrightarrow>
   pickPairingRule_scan r ks gs = pickOne r DEFAULT_PAIRINGS"
  by (induction gs) auto

lemma scan_first_match:
  "\<forall>h \<in> set pre. \<not> group_matches ks h \<Longrightarrow> group_matches ks g \<Longrightarrow>
   pickPairingRule_scan r ks (pre @ g # post) = pickOne r (options g)"
  by (induction pre) auto

lemma ingredient_name_eq:
  "ingredient_name i = (case ingredient i of JStr s \<Rightarrow> s | JNull \<Rightarrow> [])"
  by (cases "ingredient i") (simp_all add: ingredient_name_def orEmpty_def)

lemma trim_Nil: "trim [] = []"
  by (simp add: trim_def)

lemma named_keys:
  "set (extractPairingKeys ings) =
     {k. \<exists>i \<in> set ings. \<exists>s. ingredient i = JStr s \<and> k = trim (toLowerCase s)
           \<and> k \<noteq> [] \<and> k \<notin> set FILLERS}"
proof -
  have "(\<exists>s. ingredient i = JStr s \<and> k = trim (toLowerCase s) \<and> k \<noteq> [] \<and> k \<notin> set FILLERS)
      \<longleftrightarrow> (k = trim (toLowerCase (ingredient_name i)) \<and> k \<noteq> [] \<and> k \<notin> set FILLERS)" for i k
    by (cases "ingredient i") (auto simp: ingredient_name_eq toLowerCase_def trim_Nil)
  then show ?thesis by (simp add: set_extractPairingKeys)
qed

lemma pickOne_nth:
  assumes "is_draw r" and "arr \<noteq> []"
  shows "pickOne r arr = Some (arr ! random_index r (length arr))"
  using random_index_less [OF assms(1), of "length arr"] assms(2)
  by (simp add: pickOne_def Let_def)

text \<open>
  C1. When an ingredient name, in lower case and trimmed, is not empty, is no filler
  and is a key of some candidate group, \<open>pickPairingRule\<close> returns, for every value of the
  random source, a rule of the options of the first group in the order of declaration
  that has such a key, and this rule is none of the objects of \<open>DEFAULT_PAIRINGS\<close>.
\<close>

theorem pickPairingRule_first_matching_group:
  assumes "is_draw r"
    and "\<exists>g \<in> set PAIRING_CANDIDATES. \<exists>k \<in> set (keys g). \<exists>i \<in> set ings. \<exists>s.
           ingredient i = JStr s \<and> k = trim (toLowerCase s) \<and> k \<noteq> [] \<and> k \<notin> set FILLERS"
  shows "\<exists>pre g post rule.
           PAIRING_CANDIDATES = pre @ g # post
         \<and> (\<forall>h \<in> set pre. \<forall>k \<in> set (keys h). \<forall>i \<in> set ings. \<forall>s.
               ingredient i = JStr s \<and> k = trim (toLowerCase s) \<longrightarrow> k = [] \<or> k \<in> set FILLERS)
         \<and> (\<exists>k \<in> set (keys g). \<exists>i \<in> set ings. \<exists>s.
               ingredient i = JStr s \<and> k = trim (toLowerCase s) \<and> k \<noteq> [] \<and> k \<notin> set FILLERS)
         \<and> pickPairingRule r ings = Some rule
         \<and> rule \<in> set (options g)
         \<and> rule \<notin> set DEFAULT_PAIRINGS"
proof -
  let ?ks = "extractPairingKeys ings"
  from assms(2) have "\<exists>g \<in> set PAIRING_CANDIDATES. group_matches ?ks g"
    unfolding group_matches_iff named_keys by blast
  then obtain pre g post where
    split: "PAIRING_CANDIDATES = pre @ g # post"
    and before: "\<forall>h \<in> set pre. \<not> group_matches ?ks h"
    and here: "group_matches ?ks g"
    by (metis split_list_first_prop)
  have g_in: "g \<in> set PAIRING_CANDIDATES" unfolding split by simp
  have scan: "pickPairingRule r ings = pickOne r (options g)"
    unfolding pickPairingRule_def split using before here by (rule scan_first_match)
  from pickOne_in_range [OF assms(1) options_nonempty [OF g_in]]
  obtain rule where rule: "pickOne r (options g) = Some rule" "rule \<in> set (options g)"
    by blast
  have not_default: "rule \<notin> set DEFAULT_PAIRINGS"
    using g_in rule(2) by (rule options_not_default)
  have none_before: "\<forall>h \<in> set pre. \<forall>k \<in> set (keys h). \<forall>i \<in> set ings. \<forall>s.
               ingredient i = JStr s \<and> k = trim (toLowerCase s) \<longrightarrow> k = [] \<or> k \<in> set FILLERS"
    using before unfolding group_matches_iff named_keys by blast
  have one_here: "\<exists>k \<in> set (keys g). \<exists>i \<in> set ings. \<exists>s.
               ingredient i = JStr s \<and> k = trim (toLowerCase s) \<and> k \<noteq> [] \<and> k \<notin> set FILLERS"
    using here unfolding group_matches_iff named_keys by blast
  have returned: "pickPairingRule r ings = Some rule" using scan rule(1) by simp
  show ?thesis
    by (intro exI conjI) (rule split, rule none_before, rule one_here, rule returned,
        rule rule(2), rule not_default)
qed

theorem pickPairingRule_first_matching_group_witness:
  "is_draw half_draw \<and> is_draw below_third
   \<and> (\<exists>g \<in> set PAIRING_CANDIDATES. \<exists>k \<in> set (keys g). \<exists>i \<in> set margarita. \<exists>s.
         ingredient i = JStr s \<and> k = trim (toLowerCase s) \<and> k \<noteq> [] \<and> k \<notin> set FILLERS)
   \<and> (\<exists>pre g post rule.
           PAIRING_CANDIDATES = pre @ g # post
         \<and> (\<forall>h \<in> set pre. \<forall>k \<in> set (keys h). \<forall>i \<in> set margarita. \<forall>s.
               ingredient i = JStr s \<and> k = trim (toLowerCase s) \<longrightarrow> k = [] \<or> k \<in> set FILLERS)
         \<and> (\<exists>k \<in> set (keys g). \<exists>i \<in> set margarita. \<exists>s.
               ingredient i = JStr s \<and> k = trim (toLowerCase s) \<and> k \<noteq> [] \<and> k \<notin> set FILLERS)
         \<and> pickPairingRule below_third margarita = Some rule
         \<and> rule \<in> set (options g)
         \<and> rule \<notin> set DEFAULT_PAIRINGS)
   \<and> extractPairingKeys margarita = [''tequila'', ''triple sec'']
   \<and> pickPairingRule zero_draw margarita = Some \<lparr>oid = 0, type' = ''area'', value' = ''Mexican''\<rparr>
   \<and> pickPairingRule below_third margarita = Some \<lparr>oid = 1, type' = ''category'', value' = ''Pork''\<rparr>
   \<and> pickPairingRule half_draw margarita = Some \<lparr>oid = 1, type' = ''category'', value' = ''Pork''\<rparr>
   \<and> extractPairingKeys gin_tonic = [''gin'']
   \<and> pickPairingRule half_draw gin_tonic = Some \<lparr>oid = 7, type' = ''category'', value' = ''Vegetarian''\<rparr>"
proof -
  note h1 = is_draw_examples(2) and h1' = is_draw_examples(3)
  have tequila: "\<lparr>ingredient = JStr ''Tequila'', measure = JStr ''1 1/2 oz ''\<rparr> \<in> set margarita"
    by (simp add: margarita_def)
  have key: "trim (toLowerCase ''Tequila'') = ''tequila''" by code_simp
  have group: "\<lparr>keys = [''tequila'', ''mezcal''], options =
       [\<lparr>oid = 0, type' = ''area'', value' = ''Mexican''\<rparr>,
        \<lparr>oid = 1, type' = ''category'', value' = ''Pork''\<rparr>,
        \<lparr>oid = 2, type' = ''category'', value' = ''Seafood''\<rparr>]\<rparr> \<in> set PAIRING_CANDIDATES"
    by (simp add: PAIRING_CANDIDATES_def)
  have no_filler: "''tequila'' \<notin> set FILLERS" by (simp add: FILLERS_def)
  have h2: "\<exists>g \<in> set PAIRING_CANDIDATES. \<exists>k \<in> set (keys g). \<exists>i \<in> set margarita. \<exists>s.
         ingredient i = JStr s \<and> k = trim (toLowerCase s) \<and> k \<noteq> [] \<and> k \<notin> set FILLERS"
    by (rule bexI [OF _ group], rule bexI [of _ "''tequila''"], rule bexI [OF _ tequila],
        rule exI [of _ "''Tequila''"]) (use key no_filler in simp_all)
  have e: "extractPairingKeys margarita = [''tequila'', ''triple sec'']"
    by code_simp
  have v0: "pickPairingRule zero_draw margarita
      = Some \<lparr>oid = 0, type' = ''area'', value' = ''Mexican''\<rparr>"
    by code_simp
  have len: "length [a, b, c] = 3" for a b c :: rule by simp
  have "pickPairingRule below_third margarita = pickOne below_third
       [\<lparr>oid = 0, type' = ''area'', value' = ''Mexican''\<rparr>,
        \<lparr>oid = 1, type' = ''category'', value' = ''Pork''\<rparr>,
        \<lparr>oid = 2, type' = ''category'', value' = ''Seafood''\<rparr>]"
    by (simp add: pickPairingRule_def e PAIRING_CANDIDATES_def group_matches_def)
  also have "\<dots> = Some \<lparr>oid = 1, type' = ''category'', value' = ''Pork''\<rparr>"
    by (simp only: pickOne_def len random_index_below_third Let_def) simp
  finally have v1: "pickPairingRule below_third margarita
      = Some \<lparr>oid = 1, type' = ''category'', value' = ''Pork''\<rparr>" .
  have v2: "pickPairingRule half_draw margarita
      = Some \<lparr>oid = 1, type' = ''category'', value' = ''Pork''\<rparr>"
    by code_simp
  have e': "extractPairingKeys gin_tonic = [''gin'']"
    by code_simp
  have v3: "pickPairingRule half_draw gin_tonic
      = Some \<lparr>oid = 7, type' = ''category'', value' = ''Vegetarian''\<rparr>"
    by code_simp
  from pickPairingRule_first_matching_group [OF h1' h2] h1 h1' h2 e v0 v1 v2 e' v3
  show ?thesis by (intro conjI)
qed

text \<open>
  C2. When every ingredient name, in lower case and trimmed, is a filler or is no key
  of any candidate group, \<open>pickPairingRule\<close> returns a rule of \<open>DEFAULT_PAIRINGS\<close>, for every
  value of the random source.
\<close>

theorem pickPairingRule_default:
  assumes "is_draw r"
    and "\<forall>i \<in> set ings. \<forall>s. ingredient i = JStr s \<longrightarrow>
           trim (toLowerCase s) \<in> set FILLERS
         \<or> (\<forall>g \<in> set PAIRING_CANDIDATES. trim (toLowerCase s) \<notin> set (keys g))"
  shows "\<exists>rule. pickPairingRule r ings = Some rule \<and> rule \<in> set DEFAULT_PAIRINGS"
proof -
  have "\<forall>g \<in> set PAIRING_CANDIDATES. \<not> group_matches (extractPairingKeys ings) g"
    using assms(2) unfolding group_matches_iff named_keys by blast
  then have "pickPairingRule r ings = pickOne r DEFAULT_PAIRINGS"
    unfolding pickPairingRule_def by (rule scan_no_match)
  with pickOne_in_range [OF assms(1) default_nonempty] show ?thesis by simp
qed

theorem pickPairingRule_default_witness:
  "is_draw below_five_sixths
   \<and> list_all (\<lambda>i. \<exists>s. ingredient i = JStr s \<and> trim (toLowerCase s) \<in> set FILLERS) iced_soda
   \<and> extractPairingKeys iced_soda = []
   \<and> (\<exists>rule. pickPairingRule below_five_sixths iced_soda = Some rule
          \<and> rule \<in> set DEFAULT_PAIRINGS)
   \<and> pickPairingRule below_five_sixths iced_soda
       = Some \<lparr>oid = 37, type' = ''category'', value' = ''Chicken''\<rparr>
   \<and> pickPairingRule half_draw iced_soda
       = Some \<lparr>oid = 35, type' = ''category'', value' = ''Seafood''\<rparr>
   \<and> pickPairingRule zero_draw [] = Some \<lparr>oid = 32, type' = ''area'', value' = ''Italian''\<rparr>"
proof -
  note h1 = is_draw_examples(4)
  have ice: "trim (toLowerCase ''Ice'') \<in> set FILLERS"
    and soda: "trim (toLowerCase ''Soda water'') \<in> set FILLERS"
    by code_simp+
  then have h2: "list_all (\<lambda>i. \<exists>s. ingredient i = JStr s \<and> trim (toLowerCase s) \<in> set FILLERS)
      iced_soda"
    by (simp add: iced_soda_def)
  then have h2': "\<forall>i \<in> set iced_soda. \<forall>s. ingredient i = JStr s \<longrightarrow>
           trim (toLowerCase s) \<in> set FILLERS
         \<or> (\<forall>g \<in> set PAIRING_CANDIDATES. trim (toLowerCase s) \<notin> set (keys g))"
    by (auto simp: list_all_iff)
  have e: "extractPairingKeys iced_soda = []"
    by code_simp
  have len: "length DEFAULT_PAIRINGS = 6" by (simp add: DEFAULT_PAIRINGS_def)
  have "pickPairingRule below_five_sixths iced_soda = pickOne below_five_sixths DEFAULT_PAIRINGS"
    by (simp add: pickPairingRule_def e PAIRING_CANDIDATES_def group_matches_def)
  also have "\<dots> = Some (DEFAULT_PAIRINGS ! 5)"
    by (simp only: pickOne_def len random_index_below_five_sixths Let_def) simp
  also have "\<dots> = Some \<lparr>oid = 37, type' = ''category'', value' = ''Chicken''\<rparr>"
    by (simp add: DEFAULT_PAIRINGS_def)
  finally have v: "pickPairingRule below_five_sixths iced_soda
      = Some \<lparr>oid = 37, type' = ''category'', value' = ''Chicken''\<rparr>" .
  have v': "pickPairingRule half_draw iced_soda
      = Some \<lparr>oid = 35, type' = ''category'', value' = ''Seafood''\<rparr>"
    by code_simp
  have v'': "pickPairingRule zero_draw [] = Some \<lparr>oid = 32, type' = ''area'', value' = ''Italian''\<rparr>"
    by code_simp
  from pickPairingRule_default [OF h1 h2'] h1 h2 e v v' v''
  show ?thesis by (intro conjI)
qed

text \<open>
  C3. \<open>pickPairingRule\<close> is total: for every list of ingredients, the empty one included,
  it returns one rule of the tables. The arrays \<open>pickOne\<close> is applied to are the
  options of a candidate group or \<open>DEFAULT_PAIRINGS\<close>, none of them empty, and the index
  \<open>Math.floor(Math.random() * arr.length)\<close>, the floor of the rounded product of the
  doubles, is within the bounds of every array that is not empty, so that \<open>pickOne\<close>
  returns the element at it. Ingredient names that agree in lower case give the same
  rule; a key is compared as it is written with the trimmed lower-case name, so that
  a key that is not in lower case is never found, and the keys of the table are in
  lower case.
\<close>

theorem pickPairingRule_total:
  assumes "is_draw r"
  shows "(\<exists>rule. pickPairingRule r ings = Some rule
            \<and> rule \<in> set DEFAULT_PAIRINGS \<union> (\<Union>g \<in> set PAIRING_CANDIDATES. set (options g)))
       \<and> (\<forall>g \<in> set PAIRING_CANDIDATES. options g \<noteq> []) \<and> DEFAULT_PAIRINGS \<noteq> []
       \<and> (\<forall>n. 0 < n \<longrightarrow> random_index r n < n)
       \<and> (\<forall>arr :: rule list. arr \<noteq> [] \<longrightarrow>
             pickOne r arr = Some (arr ! random_index r (length arr)))
       \<and> (\<forall>ings'. map (\<lambda>i. toLowerCase (ingredient_name i)) ings'
                   = map (\<lambda>i. toLowerCase (ingredient_name i)) ings
             \<longrightarrow> pickPairingRule r ings' = pickPairingRule r ings)
       \<and> (\<forall>g. group_matches (extractPairingKeys ings) g \<longleftrightarrow>
             (\<exists>k \<in> set (keys g). \<exists>i \<in> set ings.
                k = trim (toLowerCase (ingredient_name i)) \<and> k \<noteq> [] \<and> k \<notin> set FILLERS))
       \<and> (\<forall>k. toLowerCase k \<noteq> k \<longrightarrow> k \<notin> set (extractPairingKeys ings))
       \<and> (\<forall>g \<in> set PAIRING_CANDIDATES. \<forall>k \<in> set (keys g). toLowerCase k = k)"
proof -
  let ?ks = "extractPairingKeys ings"
  have total: "\<exists>rule. pickPairingRule r ings = Some rule
            \<and> rule \<in> set DEFAULT_PAIRINGS \<union> (\<Union>g \<in> set PAIRING_CANDIDATES. set (options g))"
  proof (cases "\<exists>g \<in> set PAIRING_CANDIDATES. group_matches ?ks g")
    case True
    then obtain pre g post where
      split: "PAIRING_CANDIDATES = pre @ g # post"
      and before: "\<forall>h \<in> set pre. \<not> group_matches ?ks h"
      and here: "group_matches ?ks g"
      by (metis split_list_first_prop)
    have g_in: "g \<in> set PAIRING_CANDIDATES" unfolding split by simp
    have "pickPairingRule r ings = pickOne r (options g)"
      unfolding pickPairingRule_def split using before here by (rule scan_first_match)
    with pickOne_in_range [OF assms options_nonempty [OF g_in]] g_in
    show ?thesis by auto
  next
    case False
    then have "pickPairingRule r ings = pickOne r DEFAULT_PAIRINGS"
      unfolding pickPairingRule_def by (simp add: scan_no_match)
    with pickOne_in_range [OF assms default_nonempty] show ?thesis by auto
  qed
  have index: "\<forall>n. 0 < n \<longrightarrow> random_index r n < n"
    using random_index_less [OF assms] by blast
  have element: "\<forall>arr :: rule list. arr \<noteq> [] \<longrightarrow>
             pickOne r arr = Some (arr ! random_index r (length arr))"
    using pickOne_nth [OF assms] by blast
  have fold: "\<forall>ings'. map (\<lambda>i. toLowerCase (ingredient_name i)) ings'
                   = map (\<lambda>i. toLowerCase (ingredient_name i)) ings
             \<longrightarrow> pickPairingRule r ings' = pickPairingRule r ings"
  proof (intro allI impI)
    fix ings'
    assume "map (\<lambda>i. toLowerCase (ingredient_name i)) ings'
          = map (\<lambda>i. toLowerCase (ingredient_name i)) ings"
    then have "extractPairingKeys ings' = extractPairingKeys ings" by (rule extract_cong)
    then show "pickPairingRule r ings' = pickPairingRule r ings"
      by (simp only: pickPairingRule_def)
  qed
  have verbatim: "\<forall>g. group_matches ?ks g \<longleftrightarrow>
             (\<exists>k \<in> set (keys g). \<exists>i \<in> set ings.
                k = trim (toLowerCase (ingredient_name i)) \<and> k \<noteq> [] \<and> k \<notin> set FILLERS)"
    by (simp add: group_matches_iff set_extractPairingKeys)
  have upper: "\<forall>k. toLowerCase k \<noteq> k \<longrightarrow> k \<notin> set ?ks"
    using extract_lower by blast
  have lower: "\<forall>g \<in> set PAIRING_CANDIDATES. \<forall>k \<in> set (keys g). toLowerCase k = k"
    using keys_lower by blast
  have nonempty: "\<forall>g \<in> set PAIRING_CANDIDATES. options g \<noteq> []"
    using options_nonempty by blast
  show ?thesis
    by (intro conjI; (fact total | fact nonempty | fact default_nonempty | fact index
                      | fact element | fact fold | fact verbatim | fact upper | fact lower))
qed

theorem pickPairingRule_total_witness:
  "is_draw zero_draw \<and> is_draw below_one
   \<and> (\<exists>rule. pickPairingRule zero_draw [] = Some rule)
   \<and> pickPairingRule zero_draw [] = Some \<lparr>oid = 32, type' = ''area'', value' = ''Italian''\<rparr>
   \<and> random_index below_one 6 < 6
   \<and> random_index below_one 6 = 5
   \<and> random_index below_five_sixths 6 = 5
   \<and> random_index below_third 3 = 1
   \<and> pickOne below_one DEFAULT_PAIRINGS = Some \<lparr>oid = 37, type' = ''category'', value' = ''Chicken''\<rparr>
   \<and> pickPairingRule zero_draw [\<lparr>ingredient = JStr ''  MEZCAL '', measure = JNull\<rparr>]
       = pickPairingRule zero_draw [\<lparr>ingredient = JStr ''  mezcal '', measure = JNull\<rparr>]
   \<and> pickPairingRule zero_draw [\<lparr>ingredient = JStr ''  mezcal '', measure = JNull\<rparr>]
       = Some \<lparr>oid = 0, type' = ''area'', value' = ''Mexican''\<rparr>
   \<and> ''Rum'' \<notin> set (extractPairingKeys [\<lparr>ingredient = JStr ''Rum'', measure = JNull\<rparr>])"
proof -
  note h0 = is_draw_examples(1) and h1 = is_draw_examples(5)
  note total = pickPairingRule_total [OF h0]
  note c2 = conjunct2
  have a: "\<exists>rule. pickPairingRule zero_draw [] = Some rule"
    using total [of "[]", THEN conjunct1] by blast
  have b: "pickPairingRule zero_draw [] = Some \<lparr>oid = 32, type' = ''area'', value' = ''Italian''\<rparr>"
    by code_simp
  note last = pickPairingRule_total [OF h1, of "[]"]
  have i: "random_index below_one 6 < 6"
    using last [THEN c2, THEN c2, THEN c2, THEN conjunct1] by simp
  have "DEFAULT_PAIRINGS \<noteq> []" by (rule default_nonempty)
  with last [THEN c2, THEN c2, THEN c2, THEN c2, THEN conjunct1]
  have "pickOne below_one DEFAULT_PAIRINGS
      = Some (DEFAULT_PAIRINGS ! random_index below_one (length DEFAULT_PAIRINGS))"
    by blast
  also have "length DEFAULT_PAIRINGS = 6" by (simp add: DEFAULT_PAIRINGS_def)
  finally have p: "pickOne below_one DEFAULT_PAIRINGS
      = Some \<lparr>oid = 37, type' = ''category'', value' = ''Chicken''\<rparr>"
    by (simp add: random_index_below_one DEFAULT_PAIRINGS_def)
  have "map (\<lambda>i. toLowerCase (ingredient_name i)) [\<lparr>ingredient = JStr ''  MEZCAL '', measure = JNull\<rparr>]
      = map (\<lambda>i. toLowerCase (ingredient_name i)) [\<lparr>ingredient = JStr ''  mezcal '', measure = JNull\<rparr>]"
    by code_simp
  with total [of "[\<lparr>ingredient = JStr ''  mezcal '', measure = JNull\<rparr>]",
      THEN c2, THEN c2, THEN c2, THEN c2, THEN c2, THEN conjunct1]
  have c: "pickPairingRule zero_draw [\<lparr>ingredient = JStr ''  MEZCAL '', measure = JNull\<rparr>]
       = pickPairingRule zero_draw [\<lparr>ingredient = JStr ''  mezcal '', measure = JNull\<rparr>]"
    by blast
  have d: "pickPairingRule zero_draw [\<lparr>ingredient = JStr ''  mezcal '', measure = JNull\<rparr>]
       = Some \<lparr>oid = 0, type' = ''area'', value' = ''Mexican''\<rparr>"
    by code_simp
  have "toLowerCase ''Rum'' \<noteq> ''Rum''" by code_simp
  with total [of "[\<lparr>ingredient = JStr ''Rum'', measure = JNull\<rparr>]",
      THEN c2, THEN c2, THEN c2, THEN c2, THEN c2, THEN c2, THEN c2, THEN conjunct1]
  have e: "''Rum'' \<notin> set (extractPairingKeys [\<lparr>ingredient = JStr ''Rum'', measure = JNull\<rparr>])"
    by blast
  from h0 h1 a b i random_index_below_one random_index_below_five_sixths
    random_index_below_third p c d e
  show ?thesis by (intro conjI)
qed

text \<open>
  Rules of the candidate groups agree in \<open>type\<close> and \<open>value\<close> with rules of
  \<open>DEFAULT_PAIRINGS\<close>, as the first option of the group of \<open>gin\<close> does: the rule returned
  for a matching group is another object than every default, not always another pair
  of \<open>type\<close> and \<open>value\<close>.
\<close>

lemma pickPairingRule_gin_agrees_with_default:
  "\<exists>rule fb. pickPairingRule zero_draw gin_tonic = Some rule
      \<and> fb \<in> set DEFAULT_PAIRINGS \<and> rule \<noteq> fb
      \<and> type' rule = type' fb \<and> value' rule = value' fb"
proof -
  have "pickPairingRule zero_draw gin_tonic
          = Some \<lparr>oid = 6, type' = ''category'', value' = ''Seafood''\<rparr>"
    by code_simp
  moreover have "\<lparr>oid = 35, type' = ''category'', value' = ''Seafood''\<rparr> \<in> set DEFAULT_PAIRINGS"
    by (simp add: DEFAULT_PAIRINGS_def)
  ultimately show ?thesis by fastforce
qed

section \<open>Properties of the normalizer\<close>

lemma slot_drink: "drink (slot i st) = drink st"
  by (simp add: slot_def Let_def)

lemma slots_from_drink: "drink (slots_from i st) = drink st"
proof (induction i st rule: slots_from.induct)
  case (1 i st)
  show ?case
  proof (cases "i \<le> 15")
    case True
    with 1 show ?thesis by (subst slots_from.simps) (simp add: slot_drink)
  next
    case False
    then show ?thesis by (subst slots_from.simps) simp
  qed
qed

lemma truthy_iff: "truthy v \<longleftrightarrow> (\<exists>s. s \<noteq> [] \<and> v = Some (JStr s))"
  by (cases v rule: truthy.cases) auto

lemma orEmpty_cases: "orEmpty v = (case v of Some (JStr m) \<Rightarrow> JStr m | _ \<Rightarrow> JStr [])"
  by (cases v rule: truthy.cases) (auto simp: orEmpty_def)

lemma slot_ingredients:
  "ingredients (slot i st) = ingredients st @
     map (slot_entry (drink st))
       (filter (\<lambda>i. \<exists>s. s \<noteq> [] \<and> drink st (''strIngredient'' @ string_of_nat i) = Some (JStr s)) [i])"
  by (simp add: slot_def Let_def truthy_iff orEmpty_cases slot_entry_def)

lemma slots_from_ingredients:
  "ingredients (slots_from i st) = ingredients st @
     map (slot_entry (drink st))
       (filter (\<lambda>i. \<exists>s. s \<noteq> [] \<and> drink st (''strIngredient'' @ string_of_nat i) = Some (JStr s)) [i..<16])"
proof (induction i st rule: slots_from.induct)
  case (1 i st)
  show ?case
  proof (cases "i \<le> 15")
    case True
    then have up: "[i..<16] = i # [i + 1..<16]" by (simp add: upt_conv_Cons)
    have "ingredients (slots_from i st) = ingredients (slots_from (i + 1) (slot i st))"
      using True by (subst slots_from.simps) simp
    also have "\<dots> = ingredients (slot i st) @
       map (slot_entry (drink st))
         (filter (\<lambda>i. \<exists>s. s \<noteq> [] \<and> drink st (''strIngredient'' @ string_of_nat i) = Some (JStr s)) [i + 1..<16])"
      using 1 [OF True] by (simp add: slot_drink)
    finally show ?thesis
      unfolding up slot_ingredients by simp
  next
    case False
    then show ?thesis by (subst slots_from.simps) simp
  qed
qed

text \<open>
  C4. The \<open>ingredients\<close> array of the record returned by \<open>normalizeDrinkDetails\<close> has one
  entry for each slot 1 to 15 whose name is present (a string that is not empty; not
  absent, not \<open>null\<close>), in ascending order of the slots, whatever the measures are; the
  measure of an entry is the measure of the slot when that is a string and the empty
  string when it is absent (or \<open>null\<close>). The array is as long as there are named slots, so
  three named slots give three entries.
\<close>

theorem normalizeDrinkDetails_ingredients:
  "normalizeDrinkDetails d ''ingredients'' = Some (Ingredients
     (map (\<lambda>i. \<lparr>ingredient = the (d (''strIngredient'' @ string_of_nat i)),
                measure = (case d (''strMeasure'' @ string_of_nat i) of
                             Some (JStr m) \<Rightarrow> JStr m | _ \<Rightarrow> JStr [])\<rparr>)
          (filter (\<lambda>i. \<exists>s. s \<noteq> [] \<and> d (''strIngredient'' @ string_of_nat i) = Some (JStr s))
             [1..<16])))
   \<and> (\<exists>l. normalizeDrinkDetails d ''ingredients'' = Some (Ingredients l)
          \<and> length l = card {i \<in> {1..15}.
               \<exists>s. s \<noteq> [] \<and> d (''strIngredient'' @ string_of_nat i) = Some (JStr s)})"
proof -
  let ?P = "\<lambda>i. \<exists>s. s \<noteq> [] \<and> d (''strIngredient'' @ string_of_nat i) = Some (JStr s)"
  have out: "normalizeDrinkDetails d ''ingredients'' =
      Some (Ingredients (map (slot_entry d) (filter ?P [1..<16])))"
    by (simp add: normalizeDrinkDetails_def normalizeDrinkDetails_run_def Let_def
        spread_ingredients_def slots_from_ingredients)
  have "length (filter ?P [1..<16]) = card ({i. ?P i} \<inter> set [1..<16])"
    by (rule distinct_length_filter) simp
  also have "{i. ?P i} \<inter> set [1..<16] = {i \<in> {1..15}. ?P i}"
    by auto
  finally have len: "length (map (slot_entry d) (filter ?P [1..<16])) = card {i \<in> {1..15}. ?P i}"
    by simp
  from out len show ?thesis
    unfolding slot_entry_def [abs_def] by blast
qed

theorem normalizeDrinkDetails_ingredients_witness:
  "normalizeDrinkDetails d3 ''ingredients'' = Some (Ingredients
          [\<lparr>ingredient = JStr ''Tequila'', measure = JStr ''1 1/2 oz ''\<rparr>,
           \<lparr>ingredient = JStr ''Triple sec'', measure = JStr []\<rparr>,
           \<lparr>ingredient = JStr ''Lime juice'', measure = JStr []\<rparr>])
   \<and> card {i \<in> {1..15}. \<exists>s. s \<noteq> [] \<and> d3 (''strIngredient'' @ string_of_nat i) = Some (JStr s)} = 3"
proof -
  have v: "normalizeDrinkDetails d3 ''ingredients'' = Some (Ingredients
          [\<lparr>ingredient = JStr ''Tequila'', measure = JStr ''1 1/2 oz ''\<rparr>,
           \<lparr>ingredient = JStr ''Triple sec'', measure = JStr []\<rparr>,
           \<lparr>ingredient = JStr ''Lime juice'', measure = JStr []\<rparr>])"
    by code_simp
  from normalizeDrinkDetails_ingredients [of d3, THEN conjunct2] v
  show ?thesis by auto
qed

text \<open>
  C5. The record returned by \<open>normalizeDrinkDetails\<close> has every field of its argument with
  the same value, the field \<open>ingredients\<close> apart, which it adds (or replaces); the
  argument is, after the call, the record it was before.
\<close>

theorem normalizeDrinkDetails_frame:
  "drink (fst (normalizeDrinkDetails_run d)) = d
   \<and> (\<forall>k. k \<noteq> ''ingredients'' \<longrightarrow> normalizeDrinkDetails d k = map_option FieldValue (d k))
   \<and> (\<exists>l. normalizeDrinkDetails d ''ingredients'' = Some (Ingredients l))
   \<and> dom (normalizeDrinkDetails d) = insert ''ingredients'' (dom d)"
proof -
  have st: "drink (fst (normalizeDrinkDetails_run d)) = d"
    by (simp add: normalizeDrinkDetails_run_def Let_def slots_from_drink)
  have eq: "normalizeDrinkDetails d =
      (map_option FieldValue \<circ> d)(''ingredients'' \<mapsto>
         Ingredients (ingredients (slots_from 1 \<lparr>drink = d, ingredients = []\<rparr>)))"
    by (simp add: normalizeDrinkDetails_def normalizeDrinkDetails_run_def Let_def
        spread_ingredients_def slots_from_drink)
  have other: "\<forall>k. k \<noteq> ''ingredients'' \<longrightarrow> normalizeDrinkDetails d k = map_option FieldValue (d k)"
    unfolding eq by simp
  have ing: "\<exists>l. normalizeDrinkDetails d ''ingredients'' = Some (Ingredients l)"
    unfolding eq by simp
  have "dom (map_option FieldValue \<circ> d) = dom d"
    by (auto simp: dom_def)
  then have dm: "dom (normalizeDrinkDetails d) = insert ''ingredients'' (dom d)"
    unfolding eq by simp
  from st other ing dm show ?thesis
    by blast
qed

theorem normalizeDrinkDetails_frame_witness:
  "drink (fst (normalizeDrinkDetails_run d3)) = d3
   \<and> normalizeDrinkDetails d3 ''strDrink'' = Some (FieldValue (JStr ''Margarita''))
   \<and> normalizeDrinkDetails d3 ''strIngredient2'' = Some (FieldValue (JStr []))
   \<and> normalizeDrinkDetails d3 ''strMeasure3'' = Some (FieldValue JNull)
   \<and> normalizeDrinkDetails d3 ''strVideo'' = None
   \<and> (\<exists>l. normalizeDrinkDetails d3 ''ingredients'' = Some (Ingredients l))"
proof -
  note frame = normalizeDrinkDetails_frame [of d3]
  note other = frame [THEN conjunct2, THEN conjunct1, rule_format]
  have a: "normalizeDrinkDetails d3 ''strDrink'' = Some (FieldValue (JStr ''Margarita''))"
    using other [of "''strDrink''"] by (simp add: d3_def)
  have b: "normalizeDrinkDetails d3 ''strIngredient2'' = Some (FieldValue (JStr []))"
    using other [of "''strIngredient2''"] by (simp add: d3_def)
  have c: "normalizeDrinkDetails d3 ''strMeasure3'' = Some (FieldValue JNull)"
    using other [of "''strMeasure3''"] by (simp add: d3_def)
  have e: "normalizeDrinkDetails d3 ''strVideo'' = None"
    using other [of "''strVideo''"] by (simp add: d3_def)
  from frame a b c e show ?thesis by blast
qed

section \<open>Properties of the fetcher\<close>

lemma lookup_eq:
  "lookup api q w =
     ((if has_meals (fst (api (upstream w) q)) then Returned (take 6 (meals_of (fst (api (upstream w) q))))
       else if fst (api (upstream w) q) = Rejected then Thrown AxiosError
       else Fell_through),
      \<lparr>upstream = snd (api (upstream w) q), events = events w @ [Request q]\<rparr>)"
proof (cases "api (upstream w) q")
  case (Pair r s')
  show ?thesis
  proof (cases r)
    case Rejected
    with Pair show ?thesis by (simp add: lookup_def)
  next
    case (Meals m)
    with Pair show ?thesis by (cases m) (simp_all add: lookup_def)
  qed
qed

lemma try_fallback_eq:
  "try_catch (fallback api fb) (\<lambda>e. skip) w =
     ((if has_meals (fst (api (upstream w) (fallback_query fb)))
       then Returned (take 6 (meals_of (fst (api (upstream w) (fallback_query fb)))))
       else Fell_through),
      \<lparr>upstream = snd (api (upstream w) (fallback_query fb)),
       events = events w @ [Request (fallback_query fb)]\<rparr>)"
  by (simp add: try_catch_def fallback_def lookup_eq skip_def)

lemma fallback_loop_eq:
  fixes api :: "('s, 'm) api"
  shows "for_of fbs (\<lambda>fb. try_catch (fallback api fb) (\<lambda>e. skip)) w =
     (let qs = map fallback_query fbs;
          rs = responses api qs (upstream w);
          k = length (takeWhile (\<lambda>r. \<not> has_meals r) rs)
      in ((if k < length rs then Returned (take 6 (meals_of (rs ! k))) else Fell_through),
          \<lparr>upstream = after_requests api (take (Suc k) qs) (upstream w),
           events = events w @ map Request (take (Suc k) qs)\<rparr>))"
proof -
  define body :: "rule \<Rightarrow> ('s, 'm list) stmt"
    where "body = (\<lambda>fb. try_catch (fallback api fb) (\<lambda>e. skip))"
  have body: "body fb w =
     ((if has_meals (fst (api (upstream w) (fallback_query fb)))
       then Returned (take 6 (meals_of (fst (api (upstream w) (fallback_query fb)))))
       else Fell_through),
      \<lparr>upstream = snd (api (upstream w) (fallback_query fb)),
       events = events w @ [Request (fallback_query fb)]\<rparr>)" for fb w
    by (simp add: body_def try_fallback_eq)
  have "for_of fbs body w =
     (let qs = map fallback_query fbs;
          rs = responses api qs (upstream w);
          k = length (takeWhile (\<lambda>r. \<not> has_meals r) rs)
      in ((if k < length rs then Returned (take 6 (meals_of (rs ! k))) else Fell_through),
          \<lparr>upstream = after_requests api (take (Suc k) qs) (upstream w),
           events = events w @ map Request (take (Suc k) qs)\<rparr>))"
  proof (induction fbs arbitrary: w)
    case Nil
    show ?case by simp
  next
    case (Cons fb fbs)
    obtain r s' where step: "api (upstream w) (fallback_query fb) = (r, s')"
      by (cases "api (upstream w) (fallback_query fb)")
    show ?case
    proof (cases "has_meals r")
      case True
      with step body [of fb w]
      have "body fb w = (Returned (take 6 (meals_of r)),
          \<lparr>upstream = s', events = events w @ [Request (fallback_query fb)]\<rparr>)"
        by simp
      then have "for_of (fb # fbs) body w = (Returned (take 6 (meals_of r)),
          \<lparr>upstream = s', events = events w @ [Request (fallback_query fb)]\<rparr>)"
        by simp
      with step True show ?thesis by simp
    next
      case False
      with step body [of fb w]
      have "body fb w = (Fell_through,
          \<lparr>upstream = s', events = events w @ [Request (fallback_query fb)]\<rparr>)"
        by simp
      then have "for_of (fb # fbs) body w =
          for_of fbs body \<lparr>upstream = s', events = events w @ [Request (fallback_query fb)]\<rparr>"
        by simp
      with step False show ?thesis
        by (simp add: Cons.IH Let_def)
    qed
  qed
  then show ?thesis by (simp only: body_def)
qed

lemma fallback_cascade_eq:
  "fallback_cascade engine rnd api w =
     (let qs = map fallback_query (sort_random rnd 0 (engine DEFAULT_PAIRINGS));
          rs = responses api qs (upstream w);
          k = length (takeWhile (\<lambda>r. \<not> has_meals r) rs)
      in (Returned (if k < length rs then take 6 (meals_of (rs ! k)) else []),
          \<lparr>upstream = after_requests api (take (Suc k) qs) (upstream w),
           events = events w @ map Request (take (Suc k) qs)\<rparr>))"
  by (simp add: fallback_cascade_def seq_def fallback_loop_eq Let_def return_def)

lemma try_primary_eq:
  "try_catch (primary api rule) (\<lambda>e. console_error) w =
     (case primary api rule w of
        (Thrown e, w') \<Rightarrow> (Fell_through, w'\<lparr>events := events w' @ [ConsoleError]\<rparr>)
      | r \<Rightarrow> r)"
  by (simp add: try_catch_def console_error_def split: prod.splits outcome.splits)

lemma take_as_map: "take n xs = map (\<lambda>i. xs ! i) [0..<min n (length xs)]"
  by (rule nth_equalityI) auto

text \<open>
  C6. For a rule of the type \<open>area\<close> or \<open>category\<close> whose lookup succeeds with at least one
  meal, \<open>fetchMealsByRule\<close> returns the first six meals of the answer, or all of them when
  they are fewer, in the order of the answer, and sends this one request only; of ten
  meals it returns the first six.
\<close>

theorem fetchMealsByRule_primary_hit:
  assumes "type' ru = ''area'' \<and> q = ByArea (value' ru)
         \<or> type' ru = ''category'' \<and> q = ByCategory (value' ru)"
    and "api (upstream w) q = (Meals (Some ms), s')"
    and "ms \<noteq> []"
  shows "fetchMealsByRule engine rnd api (Some ru) w
           = (Returned (take 6 ms), \<lparr>upstream = s', events = events w @ [Request q]\<rparr>)
       \<and> take 6 ms = map (\<lambda>i. ms ! i) [0..<min 6 (length ms)]
       \<and> (length ms = 10 \<longrightarrow> take 6 ms = [ms ! 0, ms ! 1, ms ! 2, ms ! 3, ms ! 4, ms ! 5])"
proof -
  have "lookup api q w = (Returned (take 6 ms), \<lparr>upstream = s', events = events w @ [Request q]\<rparr>)"
    using assms(2,3) by (simp add: lookup_eq)
  moreover have "primary api (Some ru) w = lookup api q w"
    using assms(1) by (auto simp: primary_def)
  ultimately have "fetchMealsByRule engine rnd api (Some ru) w
           = (Returned (take 6 ms), \<lparr>upstream = s', events = events w @ [Request q]\<rparr>)"
    by (simp add: fetchMealsByRule_def seq_def try_primary_eq)
  moreover have "length ms = 10 \<longrightarrow> take 6 ms = [ms ! 0, ms ! 1, ms ! 2, ms ! 3, ms ! 4, ms ! 5]"
  proof
    assume "length ms = 10"
    then have "[0..<min 6 (length ms)] = [0, 1, 2, 3, 4, 5]"
      by (simp add: upt_rec)
    then show "take 6 ms = [ms ! 0, ms ! 1, ms ! 2, ms ! 3, ms ! 4, ms ! 5]"
      by (subst take_as_map) simp
  qed
  ultimately show ?thesis using take_as_map [of 6 ms] by blast
qed

theorem fetchMealsByRule_primary_hit_witness:
  "(type' mexican = ''area'' \<and> ByArea ''Mexican'' = ByArea (value' mexican)
      \<or> type' mexican = ''category'' \<and> ByArea ''Mexican'' = ByCategory (value' mexican))
   \<and> ten_meals () (ByArea ''Mexican'') = (Meals (Some [1, 2, 3, 4, 5, 6, 7, 8, 9, 10]), ())
   \<and> fetchMealsByRule insertion_engine always_zero ten_meals (Some mexican)
        \<lparr>upstream = (), events = []\<rparr>
      = (Returned [1, 2, 3, 4, 5, 6], \<lparr>upstream = (), events = [Request (ByArea ''Mexican'')]\<rparr>)"
proof -
  let ?w = "\<lparr>upstream = (), events = []\<rparr> :: unit world"
  have h1: "type' mexican = ''area'' \<and> ByArea ''Mexican'' = ByArea (value' mexican)
      \<or> type' mexican = ''category'' \<and> ByArea ''Mexican'' = ByCategory (value' mexican)"
    by (simp add: mexican_def)
  have h2: "ten_meals (upstream ?w) (ByArea ''Mexican'')
      = (Meals (Some [1, 2, 3, 4, 5, 6, 7, 8, 9, 10]), ())"
    by (simp add: ten_meals_def)
  have h3: "[1, 2, 3, 4, 5, 6, 7, 8, 9, 10] \<noteq> ([] :: nat list)" by simp
  from fetchMealsByRule_primary_hit
    [where api = ten_meals and w = ?w and engine = insertion_engine and rnd = always_zero,
     OF h1 h2 h3] h1 h2
  show ?thesis by simp
qed

text \<open>
  C7. \<open>fetchMealsByRule\<close> ends with a \<open>return\<close> for every rule, \<open>undefined\<close> included, and
  for every behaviour of the API, never with an exception. When the first \<open>try\<close> does
  not return (the lookup is rejected, or has no meals, or there is none) and every
  lookup of a fallback is rejected or has no meals, it returns the empty array.
\<close>

theorem fetchMealsByRule_never_throws:
  "(\<exists>ms w'. fetchMealsByRule engine rnd api rule w = (Returned ms, w'))
   \<and> (\<forall>out w1. primary api rule w = (out, w1) \<and> (\<forall>ms. out \<noteq> Returned ms)
         \<and> (\<forall>r \<in> set (responses api
                 (map fallback_query (sort_random rnd 0 (engine DEFAULT_PAIRINGS))) (upstream w1)).
               \<not> has_meals r)
       \<longrightarrow> fst (fetchMealsByRule engine rnd api rule w) = Returned [])"
proof -
  obtain out w1 where p: "primary api rule w = (out, w1)"
    by (cases "primary api rule w")
  have total: "\<exists>ms w'. fetchMealsByRule engine rnd api rule w = (Returned ms, w')"
    using p by (cases out)
      (simp_all add: fetchMealsByRule_def seq_def try_primary_eq fallback_cascade_eq Let_def)
  have empty: "fst (fetchMealsByRule engine rnd api rule w) = Returned []"
    if "\<forall>ms. out \<noteq> Returned ms"
      and "\<forall>r \<in> set (responses api
                 (map fallback_query (sort_random rnd 0 (engine DEFAULT_PAIRINGS))) (upstream w1)).
               \<not> has_meals r"
  proof -
    let ?rs = "responses api
                 (map fallback_query (sort_random rnd 0 (engine DEFAULT_PAIRINGS))) (upstream w1)"
    have len: "length (takeWhile (\<lambda>r. \<not> has_meals r) ?rs) = length ?rs"
      using that(2) by (subst takeWhile_eq_all_conv [THEN iffD2]) simp_all
    from that(1) p show ?thesis
      by (cases out)
        (simp_all add: fetchMealsByRule_def seq_def try_primary_eq fallback_cascade_eq Let_def len)
  qed
  from total empty p show ?thesis by auto
qed

theorem fetchMealsByRule_never_throws_witness:
  "primary unreachable (Some mexican) \<lparr>upstream = (), events = []\<rparr>
     = (Thrown AxiosError, \<lparr>upstream = (), events = [Request (ByArea ''Mexican'')]\<rparr>)
   \<and> list_all (\<lambda>r. \<not> has_meals r)
        (responses unreachable
           (map fallback_query (sort_random always_zero 0 (insertion_engine DEFAULT_PAIRINGS))) ())
   \<and> fst (fetchMealsByRule insertion_engine always_zero unreachable (Some mexican)
             \<lparr>upstream = (), events = []\<rparr>) = Returned []
   \<and> (\<exists>ms w'. fetchMealsByRule insertion_engine always_zero unreachable None
                 \<lparr>upstream = (), events = []\<rparr> = (Returned ms, w'))"
proof -
  let ?w = "\<lparr>upstream = (), events = []\<rparr> :: unit world"
  let ?w1 = "\<lparr>upstream = (), events = [Request (ByArea ''Mexican'')]\<rparr> :: unit world"
  have h1: "primary unreachable (Some mexican) ?w = (Thrown AxiosError, ?w1)"
    by code_simp
  have h2: "\<forall>ms :: nat list. Thrown AxiosError \<noteq> Returned ms" by simp
  have h3: "list_all (\<lambda>r. \<not> has_meals r)
        (responses unreachable
           (map fallback_query (sort_random always_zero 0 (insertion_engine DEFAULT_PAIRINGS))) ())"
    by code_simp
  then have h3': "\<forall>r \<in> set (responses unreachable
           (map fallback_query (sort_random always_zero 0 (insertion_engine DEFAULT_PAIRINGS)))
           (upstream ?w1)). \<not> has_meals r"
    by (simp add: list_all_iff)
  note never = fetchMealsByRule_never_throws
    [of insertion_engine always_zero unreachable _ ?w]
  from never [of "Some mexican", THEN conjunct2, rule_format, OF conjI [OF h1 conjI [OF h2 h3']]]
  have a: "fst (fetchMealsByRule insertion_engine always_zero unreachable (Some mexican) ?w)
      = Returned []" .
  from never [of None, THEN conjunct1]
  have b: "\<exists>ms w'. fetchMealsByRule insertion_engine always_zero unreachable None ?w
      = (Returned ms, w')" .
  from h1 h3 a b show ?thesis by blast
qed

lemma fallback_cascade_fst:
  "upstream w = upstream v \<Longrightarrow>
   fst (fallback_cascade engine rnd api w) = fst (fallback_cascade engine rnd api v)"
  by (simp add: fallback_cascade_eq Let_def)

text \<open>
  C10. For a rule whose type is neither \<open>area\<close> nor \<open>category\<close>, \<open>fetchMealsByRule\<close> sends no
  request for the rule: the call is the fallback cascade, run in the world as it is;
  it returns, and the requests it sends are requests for fallbacks. A lookup for a
  rule of the type \<open>area\<close> or \<open>category\<close> that is rejected or has no meals leads to the
  same cascade, run after this request, and to the same result when the API is in
  the state it was in before the request.
\<close>

theorem fetchMealsByRule_other_type:
  assumes "type' ru \<noteq> ''area''" and "type' ru \<noteq> ''category''"
  shows "fetchMealsByRule engine rnd api (Some ru) w = fallback_cascade engine rnd api w
       \<and> (\<exists>ms k. fetchMealsByRule engine rnd api (Some ru) w =
             (Returned ms,
              \<lparr>upstream = after_requests api
                  (take k (map fallback_query (sort_random rnd 0 (engine DEFAULT_PAIRINGS))))
                  (upstream w),
               events = events w @ map Request
                  (take k (map fallback_query (sort_random rnd 0 (engine DEFAULT_PAIRINGS))))\<rparr>))
       \<and> (\<forall>ru' q r s1.
             (type' ru' = ''area'' \<and> q = ByArea (value' ru')
                \<or> type' ru' = ''category'' \<and> q = ByCategory (value' ru'))
             \<and> api (upstream w) q = (r, s1) \<and> \<not> has_meals r
           \<longrightarrow> fetchMealsByRule engine rnd api (Some ru') w
                 = fallback_cascade engine rnd api
                     \<lparr>upstream = s1,
                      events = events w @ Request q # (if r = Rejected then [ConsoleError] else [])\<rparr>
               \<and> (s1 = upstream w \<longrightarrow>
                     fst (fetchMealsByRule engine rnd api (Some ru') w)
                   = fst (fetchMealsByRule engine rnd api (Some ru) w)))"
proof -
  have "primary api (Some ru) w = (Fell_through, w)"
    using assms by (simp add: primary_def)
  then have direct: "fetchMealsByRule engine rnd api (Some ru) w = fallback_cascade engine rnd api w"
    by (simp add: fetchMealsByRule_def seq_def try_primary_eq)
  have returns: "\<exists>ms k. fetchMealsByRule engine rnd api (Some ru) w =
             (Returned ms,
              \<lparr>upstream = after_requests api
                  (take k (map fallback_query (sort_random rnd 0 (engine DEFAULT_PAIRINGS))))
                  (upstream w),
               events = events w @ map Request
                  (take k (map fallback_query (sort_random rnd 0 (engine DEFAULT_PAIRINGS))))\<rparr>)"
    unfolding direct fallback_cascade_eq Let_def by blast
  have failed: "fetchMealsByRule engine rnd api (Some ru') w
                 = fallback_cascade engine rnd api
                     \<lparr>upstream = s1,
                      events = events w @ Request q # (if r = Rejected then [ConsoleError] else [])\<rparr>
               \<and> (s1 = upstream w \<longrightarrow>
                     fst (fetchMealsByRule engine rnd api (Some ru') w)
                   = fst (fetchMealsByRule engine rnd api (Some ru) w))"
    if ty: "type' ru' = ''area'' \<and> q = ByArea (value' ru')
                \<or> type' ru' = ''category'' \<and> q = ByCategory (value' ru')"
      and step: "api (upstream w) q = (r, s1)" and none: "\<not> has_meals r"
    for ru' q r s1
  proof -
    let ?w1 = "\<lparr>upstream = s1,
                events = events w @ Request q # (if r = Rejected then [ConsoleError] else [])\<rparr>"
    have p: "primary api (Some ru') w = lookup api q w"
      using ty by (auto simp: primary_def)
    have "try_catch (primary api (Some ru')) (\<lambda>e. console_error) w = (Fell_through, ?w1)"
      unfolding try_primary_eq p using step none by (simp add: lookup_eq)
    then have eq: "fetchMealsByRule engine rnd api (Some ru') w = fallback_cascade engine rnd api ?w1"
      by (simp add: fetchMealsByRule_def seq_def)
    have "fst (fallback_cascade engine rnd api ?w1) = fst (fallback_cascade engine rnd api w)"
      if "s1 = upstream w"
      by (rule fallback_cascade_fst) (simp add: that)
    with eq direct show ?thesis by simp
  qed
  from direct returns failed show ?thesis by blast
qed

theorem fetchMealsByRule_other_type_witness:
  "type' (mexican\<lparr>type' := ''Area''\<rparr>) \<noteq> ''area''
   \<and> type' (mexican\<lparr>type' := ''Area''\<rparr>) \<noteq> ''category''
   \<and> fetchMealsByRule insertion_engine always_zero chicken_only (Some (mexican\<lparr>type' := ''Area''\<rparr>))
        \<lparr>upstream = (), events = []\<rparr>
      = fallback_cascade insertion_engine always_zero chicken_only \<lparr>upstream = (), events = []\<rparr>
   \<and> fetchMealsByRule insertion_engine always_zero chicken_only (Some (mexican\<lparr>type' := ''Area''\<rparr>))
        \<lparr>upstream = (), events = []\<rparr>
      = (Returned [1, 2], \<lparr>upstream = (), events = [Request (ByCategory ''Chicken'')]\<rparr>)
   \<and> fetchMealsByRule insertion_engine always_zero chicken_only (Some mexican)
        \<lparr>upstream = (), events = []\<rparr>
      = (Returned [1, 2], \<lparr>upstream = (),
           events = [Request (ByArea ''Mexican''), Request (ByCategory ''Chicken'')]\<rparr>)"
proof -
  let ?w = "\<lparr>upstream = (), events = []\<rparr> :: unit world"
  let ?ru = "mexican\<lparr>type' := ''Area''\<rparr>"
  have h1: "type' ?ru \<noteq> ''area''" and h2: "type' ?ru \<noteq> ''category''"
    by simp_all
  note other = fetchMealsByRule_other_type [OF h1 h2, of insertion_engine always_zero chicken_only ?w]
  have a: "fetchMealsByRule insertion_engine always_zero chicken_only (Some ?ru) ?w
      = fallback_cascade insertion_engine always_zero chicken_only ?w"
    using other by (rule conjunct1)
  have b: "fallback_cascade insertion_engine always_zero chicken_only ?w
      = (Returned [1, 2], \<lparr>upstream = (), events = [Request (ByCategory ''Chicken'')]\<rparr>)"
    by code_simp
  have c: "fetchMealsByRule insertion_engine always_zero chicken_only (Some mexican) ?w
      = (Returned [1, 2], \<lparr>upstream = (),
           events = [Request (ByArea ''Mexican''), Request (ByCategory ''Chicken'')]\<rparr>)"
    by code_simp
  from h1 h2 a b c show ?thesis by simp
qed

subsection \<open>The shuffle\<close>

lemma sort_random_in_results: "sort_random rnd n t \<in> results t"
  by (induction t arbitrary: n) (auto simp: Let_def)

lemma sort_with_in_results: "sort_with c t \<in> results t"
  by (induction t) auto

lemma sort_random_follows:
  "\<forall>i < length (draws_for c t). rnd (n + i) = draw_value (draws_for c t ! i) \<Longrightarrow>
   sort_random rnd n t = sort_with c t"
proof (induction t arbitrary: n)
  case (Sorted xs)
  show ?case by simp
next
  case (Compare a b neg zero pos)
  consider (neg) "c a b < 0" | (zero) "c a b = 0" | (pos) "0 < c a b" by linarith
  then show ?case
  proof cases
    case neg
    then have ds: "draws_for c (Compare a b neg zero pos) = \<lparr>mantissa = 1, exponent = 2\<rparr> # draws_for c neg"
      by simp
    have head: "rnd n = 1 / 4"
      using Compare.prems [unfolded ds, rule_format, of 0] by (simp add: draw_value_def)
    have rest: "\<forall>i < length (draws_for c neg). rnd (Suc n + i) = draw_value (draws_for c neg ! i)"
    proof (intro allI impI)
      fix i assume "i < length (draws_for c neg)"
      with Compare.prems [unfolded ds, rule_format, of "Suc i"]
      show "rnd (Suc n + i) = draw_value (draws_for c neg ! i)" by simp
    qed
    from Compare.IH(1) [OF rest] head neg show ?thesis by simp
  next
    case zero
    then have ds: "draws_for c (Compare a b neg zero pos) = \<lparr>mantissa = 1, exponent = 1\<rparr> # draws_for c zero"
      by simp
    have head: "rnd n = 1 / 2"
      using Compare.prems [unfolded ds, rule_format, of 0] by (simp add: draw_value_def)
    have rest: "\<forall>i < length (draws_for c zero). rnd (Suc n + i) = draw_value (draws_for c zero ! i)"
    proof (intro allI impI)
      fix i assume "i < length (draws_for c zero)"
      with Compare.prems [unfolded ds, rule_format, of "Suc i"]
      show "rnd (Suc n + i) = draw_value (draws_for c zero ! i)" by simp
    qed
    from Compare.IH(2) [OF rest] head zero show ?thesis by simp
  next
    case pos
    then have ds: "draws_for c (Compare a b neg zero pos) = \<lparr>mantissa = 3, exponent = 2\<rparr> # draws_for c pos"
      by simp
    have head: "rnd n = 3 / 4"
      using Compare.prems [unfolded ds, rule_format, of 0] by (simp add: draw_value_def)
    have rest: "\<forall>i < length (draws_for c pos). rnd (Suc n + i) = draw_value (draws_for c pos ! i)"
    proof (intro allI impI)
      fix i assume "i < length (draws_for c pos)"
      with Compare.prems [unfolded ds, rule_format, of "Suc i"]
      show "rnd (Suc n + i) = draw_value (draws_for c pos ! i)" by simp
    qed
    from Compare.IH(3) [OF rest] head pos show ?thesis by simp
  qed
qed

lemma draws_for_range: "d \<in> set (draws_for c t) \<Longrightarrow> is_draw d"
  by (induction t) (auto simp: is_draw_def split: if_splits)

lemma replay_range: "is_draw (replay (draws_for c t) n)"
  using draws_for_range [of "draws_for c t ! n" c t] by (simp add: replay_def is_draw_def)

lemma sort_random_replay:
  "sort_random (\<lambda>n. draw_value (replay (draws_for c t) n)) 0 t = sort_with c t"
  by (rule sort_random_follows) (simp add: replay_def)

lemma place_Cons: "place (x # p) a = (if x = a then 0 else Suc (place p a))"
  by (simp add: place_def)

lemma map_place: "distinct p \<Longrightarrow> map (place p) p = [0..<length p]"
proof (induction p)
  case Nil
  show ?case by simp
next
  case (Cons x p)
  then have "map (place (x # p)) p = map (\<lambda>a. Suc (place p a)) p"
    by (auto simp: place_Cons)
  also have "\<dots> = map Suc (map (place p) p)" by simp
  also have "\<dots> = [Suc 0..<Suc (length p)]"
    using Cons by (simp add: map_Suc_upt)
  finally have tl: "map (place (x # p)) p = [Suc 0..<Suc (length p)]" .
  have "map (place (x # p)) (x # p) = 0 # map (place (x # p)) p"
    by (simp add: place_Cons)
  also have "\<dots> = 0 # [Suc 0..<Suc (length p)]" by (simp only: tl)
  also have "\<dots> = [0..<Suc (length p)]" by (simp only: upt_conv_Cons [OF zero_less_Suc])
  finally show ?case by simp
qed

lemma sorted_by_place_unique:
  assumes "distinct p" and "mset ys = mset p" and "sorted (map (place p) ys)"
  shows "ys = p"
proof -
  have dp: "distinct (map (place p) p)" and sp: "sorted (map (place p) p)"
    using assms(1) by (simp_all add: map_place)
  then have inj: "inj_on (place p) (set p)" by (simp add: distinct_map)
  have sets: "set ys = set p" using assms(2) by (rule mset_eq_setD)
  have "distinct ys" using assms(1,2) by (metis distinct_count_atmost_1 set_mset_mset)
  with inj sets have dy: "distinct (map (place p) ys)" by (simp add: distinct_map)
  have "map (place p) ys = map (place p) p"
    using assms(3) dy sp dp by (rule sorted_distinct_set_unique) (simp add: sets)
  moreover have "inj_on (place p) (set ys \<union> set p)" using inj sets by simp
  ultimately show ?thesis by (simp add: inj_on_map_eq_map)
qed

lemma every_order_reachable:
  assumes "engine_sorts t xs" and "distinct xs" and "mset p = mset xs"
  shows "\<exists>ds. (\<forall>n. is_draw (ds n)) \<and> sort_random (\<lambda>n. draw_value (ds n)) 0 t = p"
proof -
  let ?c = "\<lambda>a b. int (place p a) - int (place p b)"
  have dp: "distinct p" using assms(2,3) by (metis distinct_count_atmost_1 set_mset_mset)
  have sets: "set p = set xs" using assms(3) by (rule mset_eq_setD)
  have "inj_on (place p) (set p)"
    using dp by (metis distinct_map distinct_upt map_place)
  then have "inj_on (place p) (set xs)" by (simp add: sets)
  with assms(1) have "sorted (map (place p) (sort_with ?c t))"
    by (simp add: engine_sorts_def)
  moreover have "mset (sort_with ?c t) = mset p"
    using assms(1,3) sort_with_in_results [of ?c t] by (simp add: engine_sorts_def)
  ultimately have "sort_with ?c t = p"
    using dp by (intro sorted_by_place_unique)
  then have "sort_random (\<lambda>n. draw_value (replay (draws_for ?c t) n)) 0 t = p"
    by (simp add: sort_random_replay)
  with replay_range [of ?c t] show ?thesis by blast
qed

lemma shuffle_is_rearrangement:
  "engine_sorts t xs \<Longrightarrow> mset (sort_random rnd n t) = mset xs"
  using sort_random_in_results [of rnd n t] by (simp add: engine_sorts_def)

lemma results_then_sort: "results (then_sort t k) = (\<Union>ys \<in> results t. results (k ys))"
  by (induction t) auto

lemma sort_with_then_sort: "sort_with c (then_sort t k) = sort_with c (k (sort_with c t))"
  by (induction t) auto

lemma results_insert_tree:
  "zs \<in> results (insert_tree x front ys) \<Longrightarrow> mset zs = add_mset x (mset front + mset ys)"
  by (induction ys arbitrary: front) auto

lemma sort_with_insert_tree:
  "sort_with (\<lambda>a b. int (f a) - int (f b)) (insert_tree x front ys) = front @ insort_key f x ys"
  by (induction ys arbitrary: front) auto

lemma results_insertion_steps:
  "\<forall>ys \<in> results t. mset ys = M \<Longrightarrow>
   \<forall>zs \<in> results (foldl (\<lambda>t x. then_sort t (insert_tree x [])) t xs). mset zs = M + mset xs"
proof (induction xs arbitrary: t M)
  case Nil
  then show ?case by simp
next
  case (Cons x xs)
  have "\<forall>ys \<in> results (then_sort t (insert_tree x [])). mset ys = add_mset x M"
    using Cons.prems by (auto simp: results_then_sort dest: results_insert_tree)
  from Cons.IH [OF this] show ?case by simp
qed

lemma sort_with_insertion_steps:
  "sorted (map f (sort_with (\<lambda>a b. int (f a) - int (f b)) t)) \<Longrightarrow>
   sorted (map f (sort_with (\<lambda>a b. int (f a) - int (f b))
     (foldl (\<lambda>t x. then_sort t (insert_tree x [])) t xs)))"
proof (induction xs arbitrary: t)
  case Nil
  then show ?case by simp
next
  case (Cons x xs)
  have "sorted (map f (sort_with (\<lambda>a b. int (f a) - int (f b)) (then_sort t (insert_tree x []))))"
    using Cons.prems by (simp add: sort_with_then_sort sort_with_insert_tree sorted_insort_key)
  from Cons.IH [OF this] show ?case by simp
qed

lemma insertion_engine_sorts: "engine_sorts (insertion_engine xs) xs"
proof -
  have "\<forall>ys \<in> results (Sorted [] :: 'a cmptree). mset ys = {#}" by simp
  from results_insertion_steps [OF this]
  have "\<forall>zs \<in> results (insertion_engine xs). mset zs = mset xs"
    by (simp add: insertion_engine_def)
  moreover have "sorted (map f (sort_with (\<lambda>a b. int (f a) - int (f b)) (insertion_engine xs)))"
    for f :: "'a \<Rightarrow> nat"
    unfolding insertion_engine_def by (rule sort_with_insertion_steps) simp
  ultimately show ?thesis by (simp add: engine_sorts_def)
qed

lemma default_distinct: "distinct DEFAULT_PAIRINGS"
  by (simp add: DEFAULT_PAIRINGS_def)

text \<open>
  C8. When the first \<open>try\<close> does not return (the lookup for the rule is rejected or has
  no meals), \<open>fetchMealsByRule\<close> shuffles \<open>DEFAULT_PAIRINGS\<close>, an array of six rules: with an
  engine whose sort meets the requirement above, the shuffled array is a permutation
  of \<open>DEFAULT_PAIRINGS\<close>, and every permutation is the shuffled array for some sequence of
  random draws. It then looks the fallbacks up one after the other in the shuffled
  order, each by its area when its type is \<open>area\<close> and by its category otherwise, up to
  the first whose answer has at least one meal, and returns the first six meals of
  this answer, or all of them when they are fewer; when there is no such fallback, it
  asks for all six and returns the empty array.
\<close>

theorem fetchMealsByRule_fallback_cascade:
  assumes "engine_sorts (engine DEFAULT_PAIRINGS) DEFAULT_PAIRINGS"
    and "primary api rule w = (out, w0)" and "\<forall>ms. out \<noteq> Returned ms"
  shows "length DEFAULT_PAIRINGS = 6 \<and> distinct DEFAULT_PAIRINGS
    \<and> (\<forall>draws. mset (sort_random draws 0 (engine DEFAULT_PAIRINGS)) = mset DEFAULT_PAIRINGS)
    \<and> (\<forall>p. mset p = mset DEFAULT_PAIRINGS \<longrightarrow>
          (\<exists>ds. (\<forall>n. is_draw (ds n))
               \<and> sort_random (\<lambda>n. draw_value (ds n)) 0 (engine DEFAULT_PAIRINGS) = p))
    \<and> (\<exists>shuffled qs rs k.
          shuffled = sort_random rnd 0 (engine DEFAULT_PAIRINGS)
        \<and> qs = map (\<lambda>fb. if type' fb = ''area'' then ByArea (value' fb)
                         else ByCategory (value' fb)) shuffled
        \<and> rs = responses api qs (upstream w0)
        \<and> k = length (takeWhile (\<lambda>r. \<not> has_meals r) rs)
        \<and> (\<forall>j < k. \<not> has_meals (rs ! j))
        \<and> (k < length rs \<longrightarrow> has_meals (rs ! k))
        \<and> fetchMealsByRule engine rnd api rule w =
             (Returned (if k < length rs then take 6 (meals_of (rs ! k)) else []),
              \<lparr>upstream = after_requests api (take (Suc k) qs) (upstream w0),
               events = events w0 @ (case out of Thrown e \<Rightarrow> [ConsoleError] | _ \<Rightarrow> [])
                          @ map Request (take (Suc k) qs)\<rparr>))"
proof -
  let ?t = "engine DEFAULT_PAIRINGS"
  let ?q = "\<lambda>fb. if type' fb = ''area'' then ByArea (value' fb) else ByCategory (value' fb)"
  let ?qs = "map ?q (sort_random rnd 0 ?t)"
  let ?rs = "responses api ?qs (upstream w0)"
  let ?k = "length (takeWhile (\<lambda>r. \<not> has_meals r) ?rs)"
  have q: "fallback_query = ?q" by (rule ext) (simp add: fallback_query_def)
  have six: "length DEFAULT_PAIRINGS = 6" by (simp add: DEFAULT_PAIRINGS_def)
  have perm: "\<forall>draws. mset (sort_random draws 0 ?t) = mset DEFAULT_PAIRINGS"
    using assms(1) by (simp add: shuffle_is_rearrangement)
  have reach: "\<forall>p. mset p = mset DEFAULT_PAIRINGS \<longrightarrow>
          (\<exists>ds. (\<forall>n. is_draw (ds n)) \<and> sort_random (\<lambda>n. draw_value (ds n)) 0 ?t = p)"
    using every_order_reachable [OF assms(1) default_distinct] by blast
  have before: "\<forall>j < ?k. \<not> has_meals (?rs ! j)"
  proof (intro allI impI)
    fix j assume j: "j < ?k"
    then have "takeWhile (\<lambda>r. \<not> has_meals r) ?rs ! j \<in> set (takeWhile (\<lambda>r. \<not> has_meals r) ?rs)"
      by (rule nth_mem)
    then have "\<not> has_meals (takeWhile (\<lambda>r. \<not> has_meals r) ?rs ! j)"
      by (rule set_takeWhileD [THEN conjunct2])
    with j show "\<not> has_meals (?rs ! j)" by (simp add: takeWhile_nth)
  qed
  have hit: "?k < length ?rs \<longrightarrow> has_meals (?rs ! ?k)"
    using nth_length_takeWhile [of "\<lambda>r. \<not> has_meals r" ?rs] by blast
  have "fetchMealsByRule engine rnd api rule w =
             (let qs = map fallback_query (sort_random rnd 0 ?t);
                  rs = responses api qs (upstream w0);
                  k = length (takeWhile (\<lambda>r. \<not> has_meals r) rs)
              in (Returned (if k < length rs then take 6 (meals_of (rs ! k)) else []),
                  \<lparr>upstream = after_requests api (take (Suc k) qs) (upstream w0),
                   events = events w0 @ (case out of Thrown e \<Rightarrow> [ConsoleError] | _ \<Rightarrow> [])
                          @ map Request (take (Suc k) qs)\<rparr>))"
    using assms(2,3)
    by (cases out)
      (simp_all add: fetchMealsByRule_def seq_def try_primary_eq fallback_cascade_eq Let_def)
  then have call: "fetchMealsByRule engine rnd api rule w =
             (Returned (if ?k < length ?rs then take 6 (meals_of (?rs ! ?k)) else []),
              \<lparr>upstream = after_requests api (take (Suc ?k) ?qs) (upstream w0),
               events = events w0 @ (case out of Thrown e \<Rightarrow> [ConsoleError] | _ \<Rightarrow> [])
                          @ map Request (take (Suc ?k) ?qs)\<rparr>)"
    unfolding q Let_def .
  have "\<exists>shuffled qs rs k.
          shuffled = sort_random rnd 0 ?t
        \<and> qs = map ?q shuffled
        \<and> rs = responses api qs (upstream w0)
        \<and> k = length (takeWhile (\<lambda>r. \<not> has_meals r) rs)
        \<and> (\<forall>j < k. \<not> has_meals (rs ! j))
        \<and> (k < length rs \<longrightarrow> has_meals (rs ! k))
        \<and> fetchMealsByRule engine rnd api rule w =
             (Returned (if k < length rs then take 6 (meals_of (rs ! k)) else []),
              \<lparr>upstream = after_requests api (take (Suc k) qs) (upstream w0),
               events = events w0 @ (case out of Thrown e \<Rightarrow> [ConsoleError] | _ \<Rightarrow> [])
                          @ map Request (take (Suc k) qs)\<rparr>)"
    by (intro exI conjI) (rule refl, rule refl, rule refl, rule refl, rule before, rule hit, rule call)
  with six default_distinct perm reach show ?thesis by blast
qed

theorem fetchMealsByRule_fallback_cascade_witness:
  "engine_sorts (insertion_engine DEFAULT_PAIRINGS) DEFAULT_PAIRINGS
   \<and> primary chicken_only (Some mexican) \<lparr>upstream = (), events = []\<rparr>
       = (Fell_through, \<lparr>upstream = (), events = [Request (ByArea ''Mexican'')]\<rparr>)
   \<and> mset (sort_random always_zero 0 (insertion_engine DEFAULT_PAIRINGS)) = mset DEFAULT_PAIRINGS
   \<and> sort_random always_zero 0 (insertion_engine DEFAULT_PAIRINGS) = rev DEFAULT_PAIRINGS
   \<and> (\<exists>ds. (\<forall>n. is_draw (ds n))
         \<and> sort_random (\<lambda>n. draw_value (ds n)) 0 (insertion_engine DEFAULT_PAIRINGS)
             = rotate1 DEFAULT_PAIRINGS)
   \<and> fetchMealsByRule insertion_engine always_zero chicken_only (Some mexican)
        \<lparr>upstream = (), events = []\<rparr>
      = (Returned [1, 2], \<lparr>upstream = (),
           events = [Request (ByArea ''Mexican''), Request (ByCategory ''Chicken'')]\<rparr>)
   \<and> fetchMealsByRule insertion_engine always_zero unreachable (Some mexican)
        \<lparr>upstream = (), events = []\<rparr>
      = (Returned [], \<lparr>upstream = (),
           events = [Request (ByArea ''Mexican''), ConsoleError,
             Request (ByCategory ''Chicken''), Request (ByCategory ''Vegetarian''),
             Request (ByCategory ''Seafood''), Request (ByArea ''Indian''),
             Request (ByArea ''Thai''), Request (ByArea ''Italian'')]\<rparr>)"
proof -
  let ?w = "\<lparr>upstream = (), events = []\<rparr> :: unit world"
  have h1: "engine_sorts (insertion_engine DEFAULT_PAIRINGS) DEFAULT_PAIRINGS"
    by (rule insertion_engine_sorts)
  have h2: "primary chicken_only (Some mexican) ?w
       = (Fell_through, \<lparr>upstream = (), events = [Request (ByArea ''Mexican'')]\<rparr>)"
    by code_simp
  have h3: "\<forall>ms :: nat list. Fell_through \<noteq> Returned ms" by simp
  note cascade = fetchMealsByRule_fallback_cascade
    [where engine = insertion_engine and rnd = always_zero, OF h1 h2 h3]
  have a: "mset (sort_random always_zero 0 (insertion_engine DEFAULT_PAIRINGS))
      = mset DEFAULT_PAIRINGS"
    using cascade [THEN conjunct2, THEN conjunct2, THEN conjunct1] by blast
  have b: "sort_random always_zero 0 (insertion_engine DEFAULT_PAIRINGS) = rev DEFAULT_PAIRINGS"
    by code_simp
  have "mset (rotate1 xs) = mset xs" for xs :: "rule list"
    by (cases xs) simp_all
  then have "mset (rotate1 DEFAULT_PAIRINGS) = mset DEFAULT_PAIRINGS" .
  with cascade [THEN conjunct2, THEN conjunct2, THEN conjunct2, THEN conjunct1]
  have c: "\<exists>ds. (\<forall>n. is_draw (ds n))
         \<and> sort_random (\<lambda>n. draw_value (ds n)) 0 (insertion_engine DEFAULT_PAIRINGS)
             = rotate1 DEFAULT_PAIRINGS"
    by blast
  have d: "fetchMealsByRule insertion_engine always_zero chicken_only (Some mexican) ?w
      = (Returned [1, 2], \<lparr>upstream = (),
           events = [Request (ByArea ''Mexican''), Request (ByCategory ''Chicken'')]\<rparr>)"
    by code_simp
  have e: "fetchMealsByRule insertion_engine always_zero unreachable (Some mexican) ?w
      = (Returned [], \<lparr>upstream = (),
           events = [Request (ByArea ''Mexican''), ConsoleError,
             Request (ByCategory ''Chicken''), Request (ByCategory ''Vegetarian''),
             Request (ByCategory ''Seafood''), Request (ByArea ''Indian''),
             Request (ByArea ''Thai''), Request (ByArea ''Italian'')]\<rparr>)"
    by code_simp
  from h1 h2 a b c d e show ?thesis by (intro conjI)
qed

section \<open>Properties of the search form\<close>




text \<open>The converse: a redirect is the answer to such requests only.\<close>

lemma post_search_redirect_only_if_blank:
  assumes "post_search api body = (sent, Redirect path)"
  shows "(body ''name'' = None
           \<or> (\<exists>n. body ''name'' = Some (Text n) \<and> (\<forall>c \<in> set n. isWhiteSpace c)))
       \<and> (body ''ingredient'' = None
           \<or> (\<exists>i. body ''ingredient'' = Some (Text i) \<and> (\<forall>c \<in> set i. isWhiteSpace c)))"
proof -
  have blank: "v = None \<or> (\<exists>s. v = Some (Text s) \<and> (\<forall>c \<in> set s. isWhiteSpace c))"
    if "nonblank v = Inr False" for v
    using that by (cases v rule: nonblank.cases) (auto simp: trim_eq_Nil_iff)
  from assms have "nonblank (body ''name'') = Inr False
      \<and> nonblank (body ''ingredient'') = Inr False"
    by (auto simp: post_search_def post_search_try_def Let_def
        split: sum.splits bool.splits prod.splits)
  then show ?thesis using blank by blast
qed

end
